theory Spec2Isabelle
  imports Complex_Main "HOL-Library.Word" "HOL-Library.Sublist"
begin

unbundle bit_operations_syntax

section \<open>Rate limiting middleware (src/middleware/validation.js)\<close>

text \<open>
  \<^verbatim>\<open>validateRequestRate\<close> keeps, per client address, the array of the times
  (\<^verbatim>\<open>Date.now()\<close>, integer milliseconds) at which it let a request pass.  The
  process-wide \<^verbatim>\<open>Map\<close> is a partial function from keys to arrays; a key that
  was never stored reads as the empty array (\<^verbatim>\<open>get(clientIP) || []\<close>: every
  stored array is truthy).
\<close>

type_synonym 'k rateLimitStore = "'k \<rightharpoonup> int list"

definition windowMs :: int where
  "windowMs = 60 * 1000"

definition maxRequests :: nat where
  "maxRequests = 10"

text \<open>
  \<^verbatim>\<open>Math.ceil(x / 1000)\<close> on an integer \<open>x\<close>: the quotient is rounded towards
  plus infinity.  Integer division in HOL rounds towards minus infinity, hence the two
  negations; \<open>ceil_div_1000\<close> below relates it to the ceiling of the real quotient.
\<close>

definition ceil_div :: "int \<Rightarrow> int \<Rightarrow> int" where
  "ceil_div x d = - ((- x) div d)"

text \<open>The outcome of the middleware: \<^verbatim>\<open>next()\<close>, or the 429 reply with its
  \<^verbatim>\<open>retryAfter\<close> field.\<close>

datatype rate_outcome = Next | RateLimitExceeded (retryAfter: int)

definition clientRequests :: "'k rateLimitStore \<Rightarrow> 'k \<Rightarrow> int list" where
  "clientRequests store clientIP = (case store clientIP of None \<Rightarrow> [] | Some ts \<Rightarrow> ts)"

definition validRequests :: "'k rateLimitStore \<Rightarrow> 'k \<Rightarrow> int \<Rightarrow> int list" where
  "validRequests store clientIP now =
     filter (\<lambda>timestamp. now - timestamp < windowMs) (clientRequests store clientIP)"

definition validateRequestRate ::
  "'k rateLimitStore \<Rightarrow> 'k \<Rightarrow> int \<Rightarrow> rate_outcome \<times> 'k rateLimitStore" where
  "validateRequestRate store clientIP now =
     (let valid = validRequests store clientIP now in
      if length valid \<ge> maxRequests
      then (RateLimitExceeded (ceil_div (valid ! 0 + windowMs - now) 1000), store)
      else (Next, store(clientIP \<mapsto> valid @ [now])))"

text \<open>A run of the middleware over a sequence of requests (key and arrival time),
  threading the store; the outcomes are returned in arrival order.\<close>

fun admit_all ::
  "'k rateLimitStore \<Rightarrow> ('k \<times> int) list \<Rightarrow> rate_outcome list \<times> 'k rateLimitStore" where
  "admit_all store [] = ([], store)"
| "admit_all store ((k, now) # reqs) =
     (let (r, store') = validateRequestRate store k now;
          (rs, store'') = admit_all store' reqs
      in (r # rs, store''))"

text \<open>
  What holds of every store the middleware builds when the clock does not go backwards:
  each key's array is in non-decreasing order, holds nothing later than the latest clock
  reading \<open>t\<close>, and has at most \<open>maxRequests\<close> entries.
\<close>

definition storeInv :: "'k rateLimitStore \<Rightarrow> int \<Rightarrow> bool" where
  "storeInv store t =
     (\<forall>k. sorted (clientRequests store k)
        \<and> (\<forall>x \<in> set (clientRequests store k). x \<le> t)
        \<and> length (clientRequests store k) \<le> maxRequests)"

section \<open>JavaScript strings and values\<close>

text \<open>
  A string is the sequence of its code units; the model covers the code units below 256
  (Latin-1), which \<^verbatim>\<open>trim\<close> and \<^verbatim>\<open>toLowerCase\<close> map to themselves.
  \<^verbatim>\<open>length\<close> counts code units.  Of the white space and line terminators
  that \<^verbatim>\<open>trim\<close> strips, those below 256 are TAB, LF, VT, FF, CR, SP and NBSP.
\<close>

definition isWhiteSpace :: "char \<Rightarrow> bool" where
  "isWhiteSpace c = (of_char c \<in> {9, 10, 11, 12, 13, 32, 160 :: nat})"

definition trim :: "string \<Rightarrow> string" where
  "trim s = rev (dropWhile isWhiteSpace (rev (dropWhile isWhiteSpace s)))"

text \<open>\<^verbatim>\<open>toLowerCase\<close>: A..Z and the accented capitals U+00C0..U+00DE (the
  multiplication sign U+00D7 apart) move up by 32; every other code unit below 256 stays.\<close>

definition toLowerCaseChar :: "char \<Rightarrow> char" where
  "toLowerCaseChar c =
     (let n = of_char c :: nat in
      if (65 \<le> n \<and> n \<le> 90) \<or> (192 \<le> n \<and> n \<le> 222 \<and> n \<noteq> 215)
      then char_of (n + 32) else c)"

definition toLowerCase :: "string \<Rightarrow> string" where
  "toLowerCase s = map toLowerCaseChar s"

text \<open>\<^verbatim>\<open>s.includes(t)\<close>: \<open>t\<close> occurs in \<open>s\<close> as a contiguous run.\<close>

definition includes_js :: "string \<Rightarrow> string \<Rightarrow> bool" where
  "includes_js s t = sublist t s"

text \<open>Decimal text of a number, as a template literal prints it.\<close>

definition digit :: "nat \<Rightarrow> char" where
  "digit d = ''0123456789'' ! d"

function decimal :: "nat \<Rightarrow> string" where
  "decimal n = (if n < 10 then [digit n] else decimal (n div 10) @ [digit (n mod 10)])"
  by pat_completeness auto
termination
  by (relation "measure id") auto

declare decimal.simps [simp del]

definition decimalInt :: "int \<Rightarrow> string" where
  "decimalInt i = (if i < 0 then CHR ''-'' # decimal (nat (- i)) else decimal (nat i))"

text \<open>
  The values \<^verbatim>\<open>JSON.parse\<close> produces.  Numbers are modelled as integers: the
  code looks at a number only through its truthiness, its sign and its text, and the text
  of a number is left to the language (a parameter of \<open>jsString\<close> below).  An object
  is the list of its members in source order; of two members with one key the later
  wins.
\<close>

datatype json =
    JNull
  | JBool bool
  | JNum int
  | JStr string
  | JArr "json list"
  | JObj "(string \<times> json) list"

text \<open>A JavaScript value read from such a tree: a property that is not there reads
  as \<^verbatim>\<open>undefined\<close>.\<close>

datatype jsval = Undefined | Val json

fun truthy :: "json \<Rightarrow> bool" where
  "truthy JNull = False"
| "truthy (JBool b) = b"
| "truthy (JNum n) = (n \<noteq> 0)"
| "truthy (JStr s) = (s \<noteq> [])"
| "truthy (JArr xs) = True"
| "truthy (JObj fs) = True"

fun typeof :: "json \<Rightarrow> string" where
  "typeof JNull = ''object''"
| "typeof (JBool b) = ''boolean''"
| "typeof (JNum n) = ''number''"
| "typeof (JStr s) = ''string''"
| "typeof (JArr xs) = ''object''"
| "typeof (JObj fs) = ''object''"

fun joinComma :: "string list \<Rightarrow> string" where
  "joinComma [] = []"
| "joinComma [s] = s"
| "joinComma (s # t # ss) = s @ CHR '','' # joinComma (t # ss)"

text \<open>
  \<^verbatim>\<open>String(v)\<close>, which the \<^verbatim>\<open>Error\<close> constructor applies to its
  message and a comparison applies to an array.  \<open>None\<close> is the
  \<^verbatim>\<open>TypeError\<close> of a value that has no primitive form.  A parsed object
  inherits \<^verbatim>\<open>Object.prototype.toString\<close> and prints as
  \<^verbatim>\<open>[object Object]\<close>, unless it has a member named \<^verbatim>\<open>toString\<close> of
  its own: a parsed member is never callable, and the inherited
  \<^verbatim>\<open>valueOf\<close> returns the object itself, so the conversion throws.  An array
  is the comma-joined text of its elements, \<^verbatim>\<open>null\<close> elements printing as
  nothing, and throws where an element does.  The text of a number is the parameter
  \<open>numText\<close>.
\<close>

fun jsString :: "(int \<Rightarrow> string) \<Rightarrow> json \<Rightarrow> string option"
  and elementTexts :: "(int \<Rightarrow> string) \<Rightarrow> json list \<Rightarrow> string list option" where
  "jsString numText JNull = Some ''null''"
| "jsString numText (JBool b) = Some (if b then ''true'' else ''false'')"
| "jsString numText (JNum n) = Some (numText n)"
| "jsString numText (JStr s) = Some s"
| "jsString numText (JArr xs) = map_option joinComma (elementTexts numText xs)"
| "jsString numText (JObj fs) =
     (if ''toString'' \<in> set (map fst fs) then None else Some ''[object Object]'')"
| "elementTexts numText [] = Some []"
| "elementTexts numText (x # xs) =
     (case (if x = JNull then Some [] else jsString numText x) of
        None \<Rightarrow> None
      | Some t \<Rightarrow> map_option (Cons t) (elementTexts numText xs))"

text \<open>
  Reading one of the properties the code reads (\<^verbatim>\<open>errors\<close>, \<^verbatim>\<open>length\<close>,
  \<^verbatim>\<open>0\<close>, \<^verbatim>\<open>message\<close>) off a parsed value.  \<open>None\<close> is the
  \<^verbatim>\<open>TypeError\<close> of reading a property of \<^verbatim>\<open>null\<close>.
\<close>

fun getProp :: "json \<Rightarrow> string \<Rightarrow> jsval option" where
  "getProp JNull key = None"
| "getProp (JObj fs) key =
     Some (case map_of (rev fs) key of None \<Rightarrow> Undefined | Some v \<Rightarrow> Val v)"
| "getProp (JArr xs) key =
     Some (if key = ''length'' then Val (JNum (int (length xs)))
           else if key = ''0'' then (case xs of [] \<Rightarrow> Undefined | x # _ \<Rightarrow> Val x)
           else Undefined)"
| "getProp (JStr s) key =
     Some (if key = ''length'' then Val (JNum (int (length s)))
           else if key = ''0'' then (case s of [] \<Rightarrow> Undefined | c # _ \<Rightarrow> Val (JStr [c]))
           else Undefined)"
| "getProp (JBool b) key = Some Undefined"
| "getProp (JNum n) key = Some Undefined"

text \<open>
  \<^verbatim>\<open>v > 0\<close>.  \<^verbatim>\<open>undefined\<close> converts to NaN, which compares false.
  A string converts by the language's numeric-literal grammar, which is taken as the
  parameter \<open>positive\<close>.  An array or an object converts through its text, so the
  comparison throws where \<open>jsString\<close> does (\<open>None\<close>), and an object that does
  print prints as no number.
\<close>

fun greaterThanZero ::
  "(int \<Rightarrow> string) \<Rightarrow> (string \<Rightarrow> bool) \<Rightarrow> jsval \<Rightarrow> bool option" where
  "greaterThanZero numText positive Undefined = Some False"
| "greaterThanZero numText positive (Val JNull) = Some False"
| "greaterThanZero numText positive (Val (JBool b)) = Some b"
| "greaterThanZero numText positive (Val (JNum n)) = Some (n > 0)"
| "greaterThanZero numText positive (Val (JStr s)) = Some (positive s)"
| "greaterThanZero numText positive (Val (JArr xs)) =
     map_option positive (jsString numText (JArr xs))"
| "greaterThanZero numText positive (Val (JObj fs)) =
     map_option (\<lambda>t. False) (jsString numText (JObj fs))"

section \<open>Prompt validation (src/services/cloudflare.js, src/middleware/validation.js)\<close>

definition prohibitedTerms :: "string list" where
  "prohibitedTerms = [''nsfw'', ''explicit'', ''gore'', ''violence'']"

text \<open>\<^verbatim>\<open>isValidPrompt\<close> on a string argument; the empty string is falsy and
  fails the first test.\<close>

definition isValidPrompt :: "string \<Rightarrow> bool" where
  "isValidPrompt prompt =
     (if prompt = [] then False
      else let trimmedPrompt = trim prompt in
        if length trimmedPrompt < 3 \<or> length trimmedPrompt > 2000 then False
        else let lowerPrompt = toLowerCase trimmedPrompt in
          \<not> list_ex (\<lambda>term. includes_js lowerPrompt term) prohibitedTerms)"

text \<open>The reply of a handler: status code and body.  A body is JSON, or (browser
  mode) raw bytes with the headers set for them.\<close>

datatype payload =
    JsonBody json
  | ImageBody "(string \<times> string) list" "8 word list"

record reply =
  statusCode :: nat
  payload :: payload

text \<open>A middleware either answers the request itself or hands on to the next handler;
  \<^verbatim>\<open>validatePrompt\<close> hands on the rewritten \<^verbatim>\<open>req.body.prompt\<close>.\<close>

datatype 'a middleware = Reply reply | Pass 'a

definition invalidPromptReply :: "string \<Rightarrow> nat \<Rightarrow> reply" where
  "invalidPromptReply errorMessage promptLength =
     \<lparr>statusCode = 400,
      payload = JsonBody (JObj
        [(''success'', JBool False),
         (''error'', JStr ''Invalid prompt''),
         (''message'', JStr errorMessage),
         (''promptLength'', JNum (int promptLength)),
         (''maxLength'', JNum 2000),
         (''minLength'', JNum 3)])\<rparr>"

definition missingPromptReply :: reply where
  \<open>missingPromptReply =
     \<lparr>statusCode = 400,
      payload = JsonBody (JObj
        [(''success'', JBool False),
         (''error'', JStr ''Missing required field: prompt''),
         (''message'', JStr ''Request body must include a "prompt" field with the text description for image generation.''),
         (''example'', JObj [(''prompt'',
            JStr ''A beautiful landscape with mountains and a lake at sunset'')])])\<rparr>\<close>

definition wrongTypeReply :: "string \<Rightarrow> reply" where
  \<open>wrongTypeReply received =
     \<lparr>statusCode = 400,
      payload = JsonBody (JObj
        [(''success'', JBool False),
         (''error'', JStr ''Invalid prompt type''),
         (''message'', JStr ''The "prompt" field must be a string.''),
         (''received'', JStr received)])\<rparr>\<close>

text \<open>\<^verbatim>\<open>validatePrompt\<close>, on the \<^verbatim>\<open>prompt\<close> member of the request body
  (\<open>None\<close> when the body has none).\<close>

definition validatePrompt :: "json option \<Rightarrow> string middleware" where
  "validatePrompt prompt =
     (case prompt of
        None \<Rightarrow> Reply missingPromptReply
      | Some v \<Rightarrow>
          if \<not> truthy v then Reply missingPromptReply
          else (case v of
              JStr s \<Rightarrow>
                if \<not> isValidPrompt s then
                  (let trimmedPrompt = trim s;
                       errorMessage =
                         (if length trimmedPrompt < 3
                          then ''Prompt must be at least 3 characters long''
                          else if length trimmedPrompt > 2000
                          then ''Prompt must not exceed 2000 characters''
                          else ''Prompt contains prohibited content or invalid characters'')
                   in Reply (invalidPromptReply errorMessage (length trimmedPrompt)))
                else Pass (trim s)
            | _ \<Rightarrow> Reply (wrongTypeReply (typeof v))))"

text \<open>
  The specification's notion of a case-insensitive occurrence, written without
  \<^verbatim>\<open>toLowerCase\<close>: two code units are the same letter when they are equal, or
  one is an ASCII capital and the other the small letter 32 above it; a term occurs in a string when some
  contiguous run of the string matches it unit by unit.
\<close>

definition asciiCapital :: "char \<Rightarrow> bool" where
  "asciiCapital c = (65 \<le> (of_char c :: nat) \<and> (of_char c :: nat) \<le> 90)"

definition sameLetter :: "char \<Rightarrow> char \<Rightarrow> bool" where
  "sameLetter c d =
     (c = d \<or> (asciiCapital c \<and> (of_char d :: nat) = of_char c + 32)
            \<or> (asciiCapital d \<and> (of_char c :: nat) = of_char d + 32))"

fun matchesAt :: "string \<Rightarrow> string \<Rightarrow> bool" where
  "matchesAt [] s = True"
| "matchesAt (t # ts) [] = False"
| "matchesAt (t # ts) (c # cs) = (sameLetter c t \<and> matchesAt ts cs)"

fun occursIgnoringCase :: "string \<Rightarrow> string \<Rightarrow> bool" where
  "occursIgnoringCase term [] = matchesAt term []"
| "occursIgnoringCase term (c # cs) = (matchesAt term (c # cs) \<or> occursIgnoringCase term cs)"

definition containsProhibited :: "string \<Rightarrow> bool" where
  "containsProhibited s = list_ex (\<lambda>term. occursIgnoringCase term s) prohibitedTerms"


section \<open>The upstream service (src/services/cloudflare.js)\<close>

text \<open>\<^verbatim>\<open>Buffer.toString('base64')\<close>: the standard alphabet, three bytes to four
  characters, the last group padded with \<open>=\<close>.\<close>

definition base64Alphabet :: string where
  "base64Alphabet = ''ABCDEFGHIJKLMNOPQRSTUVWXYZabcdefghijklmnopqrstuvwxyz0123456789+/''"

definition sextet :: "nat \<Rightarrow> char" where
  "sextet i = base64Alphabet ! i"

fun base64 :: "8 word list \<Rightarrow> string" where
  "base64 [] = []"
| "base64 [a] =
     [sextet (unat a div 4), sextet (unat a mod 4 * 16), CHR ''='', CHR ''='']"
| "base64 [a, b] =
     [sextet (unat a div 4), sextet (unat a mod 4 * 16 + unat b div 16),
      sextet (unat b mod 16 * 4), CHR ''='']"
| "base64 (a # b # c # rest) =
     [sextet (unat a div 4), sextet (unat a mod 4 * 16 + unat b div 16),
      sextet (unat b mod 16 * 4 + unat c div 64), sextet (unat c mod 64)] @ base64 rest"

text \<open>\<^verbatim>\<open>Buffer.from(text, 'base64')\<close> on text of that form: four characters
  give up to three bytes, and decoding ends at the padding.\<close>

definition sextetValue :: "char \<Rightarrow> nat option" where
  "sextetValue c = map_of (zip base64Alphabet [0 ..< 64]) c"

fun fromBase64 :: "string \<Rightarrow> 8 word list" where
  "fromBase64 (c1 # c2 # c3 # c4 # rest) =
     (case (sextetValue c1, sextetValue c2) of
        (Some a, Some b) \<Rightarrow>
          (case sextetValue c3 of
             None \<Rightarrow> [of_nat (a * 4 + b div 16)]
           | Some c \<Rightarrow>
               (case sextetValue c4 of
                  None \<Rightarrow> [of_nat (a * 4 + b div 16), of_nat (b mod 16 * 16 + c div 4)]
                | Some d \<Rightarrow>
                    [of_nat (a * 4 + b div 16), of_nat (b mod 16 * 16 + c div 4),
                     of_nat (c mod 4 * 64 + d)] @ fromBase64 rest))
      | _ \<Rightarrow> [])"
| "fromBase64 s = []"

text \<open>The exceptions that occur, told apart by their \<^verbatim>\<open>name\<close>: the two
  classes of the service, the plain \<^verbatim>\<open>Error\<close> it wraps everything else in,
  and the language's own \<^verbatim>\<open>TypeError\<close> and \<^verbatim>\<open>URIError\<close>.\<close>

datatype error =
    CloudflareAPIError (message: string) (status: nat)
  | AuthenticationError (message: string)
  | Error (message: string)
  | TypeError (message: string)
  | URIError (message: string)

fun name :: "error \<Rightarrow> string" where
  "name (CloudflareAPIError m st) = ''CloudflareAPIError''"
| "name (AuthenticationError m) = ''AuthenticationError''"
| "name (Error m) = ''Error''"
| "name (TypeError m) = ''TypeError''"
| "name (URIError m) = ''URIError''"

text \<open>The outbound request and the provider's answer.  Of the answer the code reads
  the status (\<^verbatim>\<open>response.ok\<close> holds for 200 to 299), the body bytes
  (\<^verbatim>\<open>arrayBuffer()\<close>) and the body parsed as JSON (\<^verbatim>\<open>json()\<close>, which
  rejects when the body is not JSON: \<open>None\<close>).\<close>

record requestBody =
  prompt :: string
  num_steps :: nat
  guidance_scale :: real
  seed :: nat

record request =
  url :: string
  httpMethod :: string
  headers :: "(string \<times> string) list"
  body :: requestBody

record response =
  responseStatus :: nat
  arrayBuffer :: "8 word list"
  responseJson :: "json option"

definition ok :: "response \<Rightarrow> bool" where
  "ok r = (200 \<le> responseStatus r \<and> responseStatus r \<le> 299)"

text \<open>
  What the code takes from its surroundings: the two environment variables, the network
  (\<^verbatim>\<open>fetch\<close> resolves to a response or rejects with an error message), the drawn
  seed, the clock readings of a handler (on entry, after the upstream call, for the
  reply's time stamp, and the one more that the GET handler takes when setting its headers
  fails), \<^verbatim>\<open>Date.prototype.toISOString\<close>, the language's text of a number,
  its test whether a string converts to a number above zero, and the messages the engine
  and the HTTP library give their own exceptions (a value without primitive form, a
  malformed escape sequence, a character not allowed in a header).
\<close>

record world =
  CLOUDFLARE_ACCOUNT_ID :: "string option"
  CLOUDFLARE_API_TOKEN :: "string option"
  fetch :: "request \<Rightarrow> string + response"
  randomSeed :: nat
  startTime :: int
  doneTime :: int
  replyTime :: int
  toISOString :: "int \<Rightarrow> string"
  positiveText :: "string \<Rightarrow> bool"
  numberText :: "int \<Rightarrow> string"
  catchTime :: int
  noPrimitiveText :: string
  malformedURIText :: string
  invalidHeaderText :: string

definition CLOUDFLARE_BASE_URL :: string where
  "CLOUDFLARE_BASE_URL = ''https://api.cloudflare.com/client/v4''"

definition STABLE_DIFFUSION_MODEL :: string where
  "STABLE_DIFFUSION_MODEL = ''@cf/stabilityai/stable-diffusion-xl-base-1.0''"

text \<open>An unset variable and an empty one are both falsy.\<close>

definition validateCredentials :: "world \<Rightarrow> error + (string \<times> string)" where
  "validateCredentials w =
     (case CLOUDFLARE_ACCOUNT_ID w of
        None \<Rightarrow> Inl (AuthenticationError ''CLOUDFLARE_ACCOUNT_ID environment variable is required'')
      | Some accountId \<Rightarrow>
          if accountId = []
          then Inl (AuthenticationError ''CLOUDFLARE_ACCOUNT_ID environment variable is required'')
          else (case CLOUDFLARE_API_TOKEN w of
              None \<Rightarrow> Inl (AuthenticationError ''CLOUDFLARE_API_TOKEN environment variable is required'')
            | Some apiToken \<Rightarrow>
                if apiToken = []
                then Inl (AuthenticationError ''CLOUDFLARE_API_TOKEN environment variable is required'')
                else Inr (accountId, apiToken)))"

definition buildEndpointUrl :: "string \<Rightarrow> string" where
  "buildEndpointUrl accountId =
     CLOUDFLARE_BASE_URL @ ''/accounts/'' @ accountId @ ''/ai/run/'' @ STABLE_DIFFUSION_MODEL"

definition createRequestHeaders :: "string \<Rightarrow> (string \<times> string) list" where
  "createRequestHeaders apiToken =
     [(''Authorization'', ''Bearer '' @ apiToken),
      (''Content-Type'', ''application/json''),
      (''User-Agent'', ''NodeJS-Image-Generator/1.0'')]"

text \<open>
  The value of \<^verbatim>\<open>errorMessage\<close> when the error for a non-success answer is
  built.  It starts as the generic text and is replaced only by a truthy
  \<^verbatim>\<open>errorData.errors[0].message\<close>, and only when every step of
  \<^verbatim>\<open>errorData.errors && errorData.errors.length > 0\<close> and of reading that
  message goes through; a rejected \<^verbatim>\<open>json()\<close> or a \<^verbatim>\<open>TypeError\<close> on
  the way is caught and leaves it.
\<close>

definition genericErrorMessage :: "nat \<Rightarrow> string" where
  "genericErrorMessage st = ''Cloudflare API request failed with status '' @ decimal st"

definition errorMessageOf :: "world \<Rightarrow> response \<Rightarrow> json" where
  "errorMessageOf w r =
     (let errorMessage = JStr (genericErrorMessage (responseStatus r)) in
      case responseJson r of
        None \<Rightarrow> errorMessage
      | Some errorData \<Rightarrow>
          (case getProp errorData ''errors'' of
             Some (Val errors) \<Rightarrow>
               if truthy errors
               then (case greaterThanZero (numberText w) (positiveText w)
                            (case getProp errors ''length'' of
                               Some l \<Rightarrow> l | None \<Rightarrow> Undefined) of
                     Some True \<Rightarrow>
                       (case getProp errors ''0'' of
                          Some (Val e0) \<Rightarrow>
                            (case getProp e0 ''message'' of
                               Some (Val m) \<Rightarrow> if truthy m then m else errorMessage
                             | _ \<Rightarrow> errorMessage)
                        | _ \<Rightarrow> errorMessage)
                   | _ \<Rightarrow> errorMessage)
               else errorMessage
           | _ \<Rightarrow> errorMessage))"

text \<open>
  \<^verbatim>\<open>new CloudflareAPIError(errorMessage, ...)\<close> stands after the inner
  \<^verbatim>\<open>try\<close>: the \<^verbatim>\<open>Error\<close> constructor turns the message into text,
  and where that conversion throws, the \<^verbatim>\<open>TypeError\<close> leaves
  \<^verbatim>\<open>processCloudflareResponse\<close> in place of the error being built.
\<close>

definition processCloudflareResponse :: "world \<Rightarrow> response \<Rightarrow> error + string" where
  "processCloudflareResponse w r =
     (if \<not> ok r
      then (case jsString (numberText w) (errorMessageOf w r) of
              None \<Rightarrow> Inl (TypeError (noPrimitiveText w))
            | Some errorMessage \<Rightarrow> Inl (CloudflareAPIError errorMessage (responseStatus r)))
      else Inr (base64 (arrayBuffer r)))"

text \<open>The \<^verbatim>\<open>catch\<close> block of \<^verbatim>\<open>generateImage\<close>: the two classes of
  the service are thrown on, anything else is wrapped in a plain \<^verbatim>\<open>Error\<close>.\<close>

fun caught :: "error \<Rightarrow> error" where
  "caught (AuthenticationError m) = AuthenticationError m"
| "caught (CloudflareAPIError m st) = CloudflareAPIError m st"
| "caught e = Error (''Image generation failed: '' @ message e)"

text \<open>The request \<^verbatim>\<open>generateImage\<close> hands to \<^verbatim>\<open>fetch\<close>, for
  the prompt text \<open>q\<close> it puts in the body.\<close>

abbreviation sentRequest :: "world \<Rightarrow> string \<Rightarrow> string \<Rightarrow> string \<Rightarrow> request" where
  "sentRequest w accountId apiToken q \<equiv>
     \<lparr>url = buildEndpointUrl accountId,
      httpMethod = ''POST'',
      headers = createRequestHeaders apiToken,
      body = \<lparr>prompt = q, num_steps = 20, guidance_scale = 7.5, seed = randomSeed w\<rparr>\<rparr>"

text \<open>\<^verbatim>\<open>generateImage\<close> returns its result together with the requests it sent
  over the network, in order.\<close>

definition generateImage :: "world \<Rightarrow> string \<Rightarrow> (error + string) \<times> request list" where
  "generateImage w p =
     (case validateCredentials w of
        Inl e \<Rightarrow> (Inl (caught e), [])
      | Inr (accountId, apiToken) \<Rightarrow>
          (let req = \<lparr>url = buildEndpointUrl accountId,
                      httpMethod = ''POST'',
                      headers = createRequestHeaders apiToken,
                      body = \<lparr>prompt = trim p, num_steps = 20, guidance_scale = 7.5,
                              seed = randomSeed w\<rparr>\<rparr>
           in case fetch w req of
                Inl m \<Rightarrow> (Inl (caught (Error m)), [req])
              | Inr r \<Rightarrow>
                  (case processCloudflareResponse w r of
                     Inl e \<Rightarrow> (Inl (caught e), [req])
                   | Inr base64Image \<Rightarrow> (Inr base64Image, [req]))))"

section \<open>Route handlers (src/routes/generate.js)\<close>

text \<open>The status and the text chosen in the handlers' \<^verbatim>\<open>catch\<close> block.\<close>

definition errorStatus :: "error \<Rightarrow> nat \<times> string" where
  "errorStatus e =
     (if name e = ''CloudflareAPIError''
      then (502, ''Failed to communicate with Cloudflare AI service'')
      else if name e = ''ValidationError'' then (400, message e)
      else if name e = ''AuthenticationError''
      then (401, ''Invalid Cloudflare API credentials'')
      else (500, ''Failed to generate image due to an internal error''))"

definition postHandler :: "world \<Rightarrow> string \<Rightarrow> reply \<times> request list" where
  "postHandler w p =
     (let (result, sent) = generateImage w p;
          processingTime = doneTime w - startTime w
      in case result of
           Inr imageBase64 \<Rightarrow>
             (\<lparr>statusCode = 200,
               payload = JsonBody (JObj
                 [(''success'', JBool True),
                  (''image'', JStr imageBase64),
                  (''prompt'', JStr p),
                  (''timestamp'', JStr (toISOString w (replyTime w))),
                  (''processingTimeMs'', JNum processingTime)])\<rparr>, sent)
         | Inl e \<Rightarrow>
             (\<lparr>statusCode = fst (errorStatus e),
               payload = JsonBody (JObj
                 [(''success'', JBool False),
                  (''error'', JStr (snd (errorStatus e))),
                  (''prompt'', JStr p),
                  (''timestamp'', JStr (toISOString w (replyTime w))),
                  (''processingTimeMs'', JNum processingTime)])\<rparr>, sent))"

text \<open>\<^verbatim>\<open>router.post('/', validatePrompt, handler)\<close>: the middleware chain of the
  POST route is \<^verbatim>\<open>validatePrompt\<close> and the handler, nothing else.\<close>

definition postGenerate :: "world \<Rightarrow> json option \<Rightarrow> reply \<times> request list" where
  "postGenerate w bodyPrompt =
     (case validatePrompt bodyPrompt of
        Reply r \<Rightarrow> (r, [])
      | Pass p \<Rightarrow> postHandler w p)"

subsection \<open>The GET route\<close>

text \<open>
  \<^verbatim>\<open>decodeURIComponent\<close>.  Every \<open>%\<close> must be followed by two hexadecimal
  digits, and the octets so written must spell well-formed UTF-8; everything else is
  copied.  A malformed text makes the function throw \<^verbatim>\<open>URIError\<close>.  An
  escape of a code point above 255 gives a string outside the strings modelled here,
  which is told apart as \<open>NotLatin1\<close> rather than given a value.
\<close>

datatype token = Lit char | Octet nat

datatype decoded = Malformed | NotLatin1 | Decoded string

definition hexDigit :: "char \<Rightarrow> nat option" where
  "hexDigit c = map_of (zip ''0123456789abcdefABCDEF'' ([0 ..< 16] @ [10 ..< 16])) c"

fun tokens :: "string \<Rightarrow> token list option" where
  "tokens (c # h1 # h2 # rest) =
     (if c = CHR ''%'' then
        (case (hexDigit h1, hexDigit h2) of
           (Some a, Some b) \<Rightarrow> map_option (Cons (Octet (16 * a + b))) (tokens rest)
         | _ \<Rightarrow> None)
      else map_option (Cons (Lit c)) (tokens (h1 # h2 # rest)))"
| "tokens (c # cs) =
     (if c = CHR ''%'' then None else map_option (Cons (Lit c)) (tokens cs))"
| "tokens [] = Some []"

fun prepend :: "char \<Rightarrow> decoded \<Rightarrow> decoded" where
  "prepend c (Decoded s) = Decoded (c # s)"
| "prepend c NotLatin1 = NotLatin1"
| "prepend c Malformed = Malformed"

fun beyond :: "decoded \<Rightarrow> decoded" where
  "beyond Malformed = Malformed"
| "beyond d = NotLatin1"

definition continuation :: "nat \<Rightarrow> bool" where
  "continuation b = (128 \<le> b \<and> b \<le> 191)"

text \<open>The second octet of a three-octet and of a four-octet sequence: no overlong
  forms, no surrogates, nothing above U+10FFFF.\<close>

definition second3 :: "nat \<Rightarrow> nat \<Rightarrow> bool" where
  "second3 b b1 =
     (if b = 224 then 160 \<le> b1 \<and> b1 \<le> 191
      else if b = 237 then 128 \<le> b1 \<and> b1 \<le> 159
      else continuation b1)"

definition second4 :: "nat \<Rightarrow> nat \<Rightarrow> bool" where
  "second4 b b1 =
     (if b = 240 then 144 \<le> b1 \<and> b1 \<le> 191
      else if b = 244 then 128 \<le> b1 \<and> b1 \<le> 143
      else continuation b1)"

fun utf8 :: "token list \<Rightarrow> decoded" where
  "utf8 [] = Decoded []"
| "utf8 (Lit c # ts) = prepend c (utf8 ts)"
| "utf8 (Octet b # ts) =
     (if b < 128 then prepend (char_of b) (utf8 ts)
      else if 194 \<le> b \<and> b \<le> 223 then
        (case ts of
           Octet b1 # ts' \<Rightarrow>
             if continuation b1
             then (if b \<le> 195 then prepend (char_of ((b - 192) * 64 + (b1 - 128))) (utf8 ts')
                   else beyond (utf8 ts'))
             else Malformed
         | _ \<Rightarrow> Malformed)
      else if 224 \<le> b \<and> b \<le> 239 then
        (case ts of
           Octet b1 # Octet b2 # ts' \<Rightarrow>
             if second3 b b1 \<and> continuation b2 then beyond (utf8 ts') else Malformed
         | _ \<Rightarrow> Malformed)
      else if 240 \<le> b \<and> b \<le> 244 then
        (case ts of
           Octet b1 # Octet b2 # Octet b3 # ts' \<Rightarrow>
             if second4 b b1 \<and> continuation b2 \<and> continuation b3
             then beyond (utf8 ts') else Malformed
         | _ \<Rightarrow> Malformed)
      else Malformed)"

definition decodeURIComponent :: "string \<Rightarrow> decoded" where
  "decodeURIComponent s = (case tokens s of None \<Rightarrow> Malformed | Some ts \<Rightarrow> utf8 ts)"

text \<open>A header value \<^verbatim>\<open>res.set\<close> accepts: TAB, the printable ASCII
  characters and the code units from 128 on; with any other character in it,
  \<^verbatim>\<open>setHeader\<close> throws a \<^verbatim>\<open>TypeError\<close>.\<close>

definition validHeaderValue :: "string \<Rightarrow> bool" where
  "validHeaderValue v =
     list_all (\<lambda>c. (of_char c :: nat) = 9 \<or> (32 \<le> (of_char c :: nat) \<and> (of_char c :: nat) \<le> 126)
                  \<or> 128 \<le> (of_char c :: nat)) v"

text \<open>What becomes of a request in an \<^verbatim>\<open>async\<close> handler: it is answered, or
  the handler's promise rejects and the handler answers nothing.\<close>

datatype outcome = Replied reply | Rejected error

text \<open>
  \<^verbatim>\<open>router.get('/:prompt', handler)\<close>, on the path segment as the framework
  hands it over in \<^verbatim>\<open>req.params.prompt\<close>, which the framework has URL-decoded
  once already.  The handler decodes it a second time, before its \<^verbatim>\<open>try\<close>.
  Setting the headers of the image reply stands inside the \<^verbatim>\<open>try\<close>, so a
  prompt that is no valid header value ends in the \<^verbatim>\<open>catch\<close> block, which
  reads the clock once more.  \<open>None\<close>: the decoded prompt is outside the strings
  modelled here.  The headers of a JSON reply are not modelled.
\<close>

definition getGenerate :: "world \<Rightarrow> string \<Rightarrow> (outcome \<times> request list) option" where
  \<open>getGenerate w param =
     (case decodeURIComponent param of
        NotLatin1 \<Rightarrow> None
      | Malformed \<Rightarrow> Some (Rejected (URIError (malformedURIText w)), [])
      | Decoded p \<Rightarrow> Some
         (if p = [] \<or> length (trim p) < 3 \<or> length (trim p) > 2000
          then (Replied \<lparr>statusCode = 400,
                 payload = JsonBody (JObj
                   [(''success'', JBool False),
                    (''error'', JStr ''Invalid prompt''),
                    (''message'', JStr ''Prompt must be between 3 and 2000 characters long''),
                    (''example'', JStr ''GET /generate/a%20beautiful%20sunset'')])\<rparr>, [])
          else
            (let (result, sent) = generateImage w (trim p);
                 processingTime = doneTime w - startTime w;
                 errorReply = (\<lambda>e elapsed.
                   \<lparr>statusCode = fst (errorStatus e),
                    payload = JsonBody (JObj
                      [(''success'', JBool False),
                       (''error'', JStr (snd (errorStatus e))),
                       (''prompt'', JStr (trim p)),
                       (''timestamp'', JStr (toISOString w (replyTime w))),
                       (''processingTimeMs'', JNum elapsed),
                       (''method'', JStr ''GET'')])\<rparr>)
             in case result of
                  Inr imageBase64 \<Rightarrow>
                    (let imageBuffer = fromBase64 imageBase64 in
                     if validHeaderValue (trim p)
                     then (Replied \<lparr>statusCode = 200,
                            payload = ImageBody
                              [(''Content-Type'', ''image/png''),
                               (''Content-Length'', decimal (length imageBuffer)),
                               (''X-Generated-Prompt'', trim p),
                               (''X-Processing-Time'', decimalInt processingTime)]
                              imageBuffer\<rparr>, sent)
                     else (Replied (errorReply (TypeError (invalidHeaderText w))
                                      (catchTime w - startTime w)), sent))
                | Inl e \<Rightarrow> (Replied (errorReply e processingTime), sent))))\<close>

text \<open>
  The server over a sequence of POST requests.  Each element is a request's client
  address, its arrival time and the \<^verbatim>\<open>prompt\<close> member of its body; every
  request is served in the same surroundings \<open>w\<close>.  The rate limit store is threaded
  through as the process-wide state it is; the POST route never reads or writes it.
\<close>

fun servePosts ::
  "world \<Rightarrow> 'k rateLimitStore \<Rightarrow> ('k \<times> int \<times> json option) list
     \<Rightarrow> (reply \<times> request list) list \<times> 'k rateLimitStore" where
  "servePosts w store [] = ([], store)"
| "servePosts w store ((clientIP, now, bodyPrompt) # reqs) =
     (let (rs, store') = servePosts w store reqs
      in (postGenerate w bodyPrompt # rs, store'))"

section \<open>A mocked upstream\<close>

text \<open>
  Surroundings for concrete runs, as a test would set them up: both credentials as
  given, a network that answers every request with \<open>answer\<close>, seed 42, and a
  handler that starts at clock reading 1000 and finishes and stamps its reply at 1250,
  a second and a quarter after the epoch.  Numbers print in plain decimal (as they do
  up to 2^53; the runs below print none beyond), the string comparison is never reached,
  and the exception messages are those of Node.js.
\<close>

definition mockWorld :: "string option \<Rightarrow> string option \<Rightarrow> (string + response) \<Rightarrow> world" where
  \<open>mockWorld accountId apiToken answer =
     \<lparr>CLOUDFLARE_ACCOUNT_ID = accountId,
      CLOUDFLARE_API_TOKEN = apiToken,
      fetch = (\<lambda>req. answer),
      randomSeed = 42,
      startTime = 1000,
      doneTime = 1250,
      replyTime = 1250,
      toISOString = (\<lambda>t. if t = 1250 then ''1970-01-01T00:00:01.250Z'' else []),
      positiveText = (\<lambda>s. False),
      numberText = decimalInt,
      catchTime = 1250,
      noPrimitiveText = ''Cannot convert object to primitive value'',
      malformedURIText = ''URI malformed'',
      invalidHeaderText = ''Invalid character in header content ["X-Generated-Prompt"]''\<rparr>\<close>

definition pngAnswer :: "string + response" where
  "pngAnswer = Inr \<lparr>responseStatus = 200, arrayBuffer = [0x89, 0x50, 0x4E, 0x47],
                    responseJson = None\<rparr>"

definition errorAnswer :: "nat \<Rightarrow> json \<Rightarrow> string + response" where
  "errorAnswer st errorData =
     Inr \<lparr>responseStatus = st, arrayBuffer = [], responseJson = Some errorData\<rparr>"

section \<open>Properties of the rate limiter\<close>

lemma ceil_div_1000: "ceil_div x 1000 = \<lceil>real_of_int x / 1000\<rceil>"
  using ceiling_divide_eq_div[of x 1000, where ?'a = real] by (simp add: ceil_div_def)

lemma ceil_div_pos: "0 < x \<Longrightarrow> 0 < ceil_div x 1000"
  unfolding ceil_div_def by linarith

lemma validRequests_window:
  "x \<in> set (validRequests store k now) \<Longrightarrow> now - windowMs < x"
  by (auto simp: validRequests_def)

lemma validRequests_subset:
  "set (validRequests store k now) \<subseteq> set (clientRequests store k)"
  by (auto simp: validRequests_def)

lemma validRequests_sorted:
  "sorted (clientRequests store k) \<Longrightarrow> sorted (validRequests store k now)"
  by (simp add: validRequests_def sorted_wrt_filter)

lemma deny_eq:
  "maxRequests \<le> length (validRequests store k now) \<Longrightarrow>
   validateRequestRate store k now =
     (RateLimitExceeded (ceil_div (validRequests store k now ! 0 + windowMs - now) 1000), store)"
  by (simp add: validateRequestRate_def Let_def)

lemma allow_eq:
  "length (validRequests store k now) < maxRequests \<Longrightarrow>
   validateRequestRate store k now = (Next, store(k \<mapsto> validRequests store k now @ [now]))"
  by (simp add: validateRequestRate_def Let_def)

lemma clientRequests_upd:
  "clientRequests (store(k \<mapsto> ts)) k' = (if k' = k then ts else clientRequests store k')"
  by (simp add: clientRequests_def)

lemma storeInv_step:
  assumes inv: "storeInv store t" and le: "t \<le> now"
  shows "storeInv (snd (validateRequestRate store k now)) now"
proof (cases "maxRequests \<le> length (validRequests store k now)")
  case True
  then have "snd (validateRequestRate store k now) = store" by (simp add: deny_eq)
  with inv le show ?thesis by (fastforce simp: storeInv_def)
next
  case False
  then have lt: "length (validRequests store k now) < maxRequests" by simp
  have srt: "sorted (validRequests store k now)"
    using inv by (simp add: storeInv_def validRequests_sorted)
  have ub: "\<forall>x \<in> set (validRequests store k now). x \<le> now"
    using inv le validRequests_subset[of store k now] by (fastforce simp: storeInv_def)
  have "sorted (validRequests store k now @ [now])"
    using srt ub by (simp add: sorted_append)
  moreover have "\<forall>x \<in> set (validRequests store k now @ [now]). x \<le> now"
    using ub by simp
  moreover have "length (validRequests store k now @ [now]) \<le> maxRequests"
    using lt by simp
  ultimately show ?thesis
    using inv le lt unfolding storeInv_def
    by (auto simp add: allow_eq clientRequests_upd simp del: sorted_append) (meson order.trans)+
qed


lemma storeInv_empty: "storeInv Map.empty t"
  by (simp add: storeInv_def clientRequests_def)

lemma admit_all_snd:
  "snd (admit_all store ((k, now) # reqs)) =
     snd (admit_all (snd (validateRequestRate store k now)) reqs)"
  by (simp add: case_prod_unfold Let_def)

lemma storeInv_admit_all:
  "storeInv store t \<Longrightarrow> t \<le> now \<Longrightarrow> sorted (map snd reqs) \<Longrightarrow>
   \<forall>r \<in> set reqs. t \<le> snd r \<and> snd r \<le> now \<Longrightarrow>
   storeInv (snd (admit_all store reqs)) now"
proof (induction reqs arbitrary: store t)
  case Nil
  then show ?case by (fastforce simp: storeInv_def)
next
  case (Cons r reqs)
  obtain k t' where r: "r = (k, t')" by (cases r)
  have step: "storeInv (snd (validateRequestRate store k t')) t'"
    using Cons.prems r by (intro storeInv_step[of store t]) auto
  have "storeInv (snd (admit_all (snd (validateRequestRate store k t')) reqs)) now"
    using Cons.prems r by (intro Cons.IH[OF step]) auto
  then show ?case
    unfolding r admit_all_snd .
qed

lemma history_inv:
  "sorted (map snd reqs) \<Longrightarrow> \<forall>r \<in> set reqs. snd r \<le> now \<Longrightarrow>
   storeInv (snd (admit_all Map.empty reqs)) now"
proof (cases reqs)
  case Nil
  then show ?thesis by (simp add: storeInv_empty)
next
  case (Cons r rs)
  assume a: "sorted (map snd reqs)" "\<forall>r \<in> set reqs. snd r \<le> now"
  have "storeInv (Map.empty :: 'a rateLimitStore) (snd r)" by (rule storeInv_empty)
  moreover have "snd r \<le> now" using a Cons by simp
  moreover have "\<forall>x \<in> set reqs. snd r \<le> snd x \<and> snd x \<le> now"
    using a Cons by auto
  ultimately show ?thesis using a(1) by (intro storeInv_admit_all[of Map.empty "snd r"]) auto
qed

lemma sorted_nth0_Min: "sorted xs \<Longrightarrow> xs \<noteq> [] \<Longrightarrow> xs ! 0 = Min (set xs)"
  by (cases xs) (auto simp: Min_insert2 intro!: Min_eqI[symmetric])

lemma filter_drops_Min:
  fixes xs :: "int list"
  assumes "xs \<noteq> []" and "\<not> P (Min (set xs))"
  shows "length (filter P xs) < length xs"
proof -
  have "Min (set xs) \<in> set xs" using assms(1) by simp
  then show ?thesis using assms(2) by (meson length_filter_less)
qed

text \<open>
  Claim C2.  On every call, for every key and every clock reading \<open>now\<close>, the
  middleware reads the key's stored array (empty if the key was never stored) and keeps
  the entries \<open>ts\<close> with \<open>now - ts < 60000\<close>, so an entry whose age has reached the
  full 60 seconds is dropped.  If at least 10 entries remain it answers 429, leaves the
  store as it is, and reports \<open>retryAfter = \<lceil>(first remaining + 60000 - now) / 1000\<rceil>\<close>,
  which is positive; otherwise it stores the remaining entries followed by \<open>now\<close> under
  the key and lets the request pass.  In particular a key with ten stored entries inside
  the window is denied.  In a store built by the middleware itself at clock readings that
  do not go backwards, the first remaining entry is the oldest one, and a call made once
  the window has fully elapsed since the key's oldest entry is let through.
\<close>

theorem validateRequestRate_admit:
  fixes s :: "'k rateLimitStore"
  shows "validRequests s k now =
           filter (\<lambda>ts. now - ts < 60000) (case s k of None \<Rightarrow> [] | Some ts \<Rightarrow> ts)
    \<and> (length (validRequests s k now) \<ge> 10 \<longrightarrow>
           (\<exists>ra. validateRequestRate s k now = (RateLimitExceeded ra, s)
              \<and> ra = \<lceil>real_of_int (validRequests s k now ! 0 + 60000 - now) / 1000\<rceil>
              \<and> 0 < ra))
    \<and> (length (validRequests s k now) < 10 \<longrightarrow>
           validateRequestRate s k now = (Next, s(k \<mapsto> validRequests s k now @ [now])))
    \<and> (length (clientRequests s k) = 10 \<and> (\<forall>ts \<in> set (clientRequests s k). now - ts < 60000) \<longrightarrow>
           (\<exists>ra. validateRequestRate s k now = (RateLimitExceeded ra, s) \<and> 0 < ra))
    \<and> (sorted (map snd reqs) \<and> (\<forall>r \<in> set reqs. snd r \<le> now) \<longrightarrow>
           (let store = snd (admit_all Map.empty reqs) :: 'k rateLimitStore in
              (validRequests store k now \<noteq> [] \<longrightarrow>
                 validRequests store k now ! 0 = Min (set (validRequests store k now)))
            \<and> (clientRequests store k = [] \<or> 60000 \<le> now - Min (set (clientRequests store k))
                 \<longrightarrow> validateRequestRate store k now =
                       (Next, store(k \<mapsto> validRequests store k now @ [now])))))"
proof -
  have c1: "validRequests s k now =
           filter (\<lambda>ts. now - ts < 60000) (case s k of None \<Rightarrow> [] | Some ts \<Rightarrow> ts)"
    by (simp add: validRequests_def clientRequests_def windowMs_def)
  have pos: "0 < ceil_div (validRequests st k now ! 0 + windowMs - now) 1000"
    if "maxRequests \<le> length (validRequests st k now)" for st :: "'k rateLimitStore"
  proof -
    have "validRequests st k now ! 0 \<in> set (validRequests st k now)"
      using that by (cases "validRequests st k now") (auto simp: maxRequests_def)
    then have "now - windowMs < validRequests st k now ! 0" by (rule validRequests_window)
    then show ?thesis by (intro ceil_div_pos) simp
  qed
  have c2: "length (validRequests s k now) \<ge> 10 \<longrightarrow>
           (\<exists>ra. validateRequestRate s k now = (RateLimitExceeded ra, s)
              \<and> ra = \<lceil>real_of_int (validRequests s k now ! 0 + 60000 - now) / 1000\<rceil>
              \<and> 0 < ra)"
  proof
    assume "length (validRequests s k now) \<ge> 10"
    then have ge: "maxRequests \<le> length (validRequests s k now)" by (simp add: maxRequests_def)
    show "\<exists>ra. validateRequestRate s k now = (RateLimitExceeded ra, s)
              \<and> ra = \<lceil>real_of_int (validRequests s k now ! 0 + 60000 - now) / 1000\<rceil>
              \<and> 0 < ra"
      using pos[OF ge] deny_eq[OF ge] ceil_div_1000[of "validRequests s k now ! 0 + 60000 - now"]
      unfolding windowMs_def by (intro exI[of _ "ceil_div (validRequests s k now ! 0 + 60000 - now) 1000"]) simp
  qed
  have c3: "length (validRequests s k now) < 10 \<longrightarrow>
           validateRequestRate s k now = (Next, s(k \<mapsto> validRequests s k now @ [now]))"
    by (simp add: allow_eq maxRequests_def)
  have c4: "length (clientRequests s k) = 10 \<and> (\<forall>ts \<in> set (clientRequests s k). now - ts < 60000) \<longrightarrow>
           (\<exists>ra. validateRequestRate s k now = (RateLimitExceeded ra, s) \<and> 0 < ra)"
  proof
    assume a: "length (clientRequests s k) = 10 \<and> (\<forall>ts \<in> set (clientRequests s k). now - ts < 60000)"
    then have "validRequests s k now = clientRequests s k"
      by (simp add: validRequests_def windowMs_def)
    with a have "maxRequests \<le> length (validRequests s k now)" by (simp add: maxRequests_def)
    then show "\<exists>ra. validateRequestRate s k now = (RateLimitExceeded ra, s) \<and> 0 < ra"
      using pos[of s] by (simp add: deny_eq)
  qed
  have c5: "sorted (map snd reqs) \<and> (\<forall>r \<in> set reqs. snd r \<le> now) \<longrightarrow>
           (let store = snd (admit_all Map.empty reqs) :: 'k rateLimitStore in
              (validRequests store k now \<noteq> [] \<longrightarrow>
                 validRequests store k now ! 0 = Min (set (validRequests store k now)))
            \<and> (clientRequests store k = [] \<or> 60000 \<le> now - Min (set (clientRequests store k))
                 \<longrightarrow> validateRequestRate store k now =
                       (Next, store(k \<mapsto> validRequests store k now @ [now]))))"
  proof
    assume h: "sorted (map snd reqs) \<and> (\<forall>r \<in> set reqs. snd r \<le> now)"
    define store :: "'k rateLimitStore" where "store = snd (admit_all Map.empty reqs)"
    have inv: "storeInv store now" unfolding store_def using h by (intro history_inv) auto
    have m: "validRequests store k now \<noteq> [] \<longrightarrow>
                 validRequests store k now ! 0 = Min (set (validRequests store k now))"
      using inv by (auto simp: storeInv_def intro!: sorted_nth0_Min validRequests_sorted)
    have e: "validateRequestRate store k now =
                       (Next, store(k \<mapsto> validRequests store k now @ [now]))"
      if "clientRequests store k = [] \<or> 60000 \<le> now - Min (set (clientRequests store k))"
    proof (cases "clientRequests store k = []")
      case True
      then show ?thesis by (simp add: allow_eq validRequests_def maxRequests_def)
    next
      case False
      with that have "\<not> (now - Min (set (clientRequests store k)) < windowMs)"
        by (simp add: windowMs_def)
      with False have "length (validRequests store k now) < length (clientRequests store k)"
        unfolding validRequests_def by (intro filter_drops_Min) auto
      moreover have "length (clientRequests store k) \<le> maxRequests"
        using inv by (simp add: storeInv_def)
      ultimately show ?thesis by (intro allow_eq) simp
    qed
    show "let store = snd (admit_all Map.empty reqs) :: 'k rateLimitStore in
              (validRequests store k now \<noteq> [] \<longrightarrow>
                 validRequests store k now ! 0 = Min (set (validRequests store k now)))
            \<and> (clientRequests store k = [] \<or> 60000 \<le> now - Min (set (clientRequests store k))
                 \<longrightarrow> validateRequestRate store k now =
                       (Next, store(k \<mapsto> validRequests store k now @ [now])))"
      using m e unfolding store_def[symmetric] Let_def by blast
  qed
  from c1 c2 c3 c4 c5 show ?thesis by blast
qed


theorem validateRequestRate_admit_witness:
  "fst (validateRequestRate
          [''10.0.0.1'' \<mapsto> [0, 1000, 2000, 3000, 4000, 5000, 6000, 7000, 8000, 9000]]
          ''10.0.0.1'' 10000) = RateLimitExceeded 50
   \<and> fst (validateRequestRate Map.empty ''10.0.0.1'' 10000) = Next
   \<and> fst (validateRequestRate
          (snd (admit_all Map.empty
             [(''10.0.0.1'', 0), (''10.0.0.1'', 1000), (''10.0.0.1'', 2000), (''10.0.0.1'', 3000),
              (''10.0.0.1'', 4000), (''10.0.0.1'', 5000), (''10.0.0.1'', 6000), (''10.0.0.1'', 7000),
              (''10.0.0.1'', 8000), (''10.0.0.1'', 9000)]))
          ''10.0.0.1'' 60000) = Next"
proof -
  let ?k = "''10.0.0.1''"
  let ?ts = "[0, 1000, 2000, 3000, 4000, 5000, 6000, 7000, 8000, 9000] :: int list"
  let ?reqs = "[(?k, 0), (?k, 1000), (?k, 2000), (?k, 3000), (?k, 4000), (?k, 5000), (?k, 6000),
                (?k, 7000), (?k, 8000), (?k, 9000)] :: (string \<times> int) list"
  have a: "fst (validateRequestRate [?k \<mapsto> ?ts] ?k 10000) = RateLimitExceeded 50"
    using validateRequestRate_admit[of "[?k \<mapsto> ?ts]" ?k 10000 "[]"]
    by (auto simp add: validRequests_def clientRequests_def windowMs_def)
  have b: "fst (validateRequestRate Map.empty ?k 10000) = Next"
    using validateRequestRate_admit[of Map.empty ?k 10000 "[]"]
    by (simp add: validRequests_def clientRequests_def windowMs_def)
  have st: "snd (admit_all Map.empty ?reqs) = [?k \<mapsto> ?ts]"
    by (simp add: validateRequestRate_def validRequests_def clientRequests_def windowMs_def
        maxRequests_def)
  have h: "sorted (map snd ?reqs) \<and> (\<forall>r \<in> set ?reqs. snd r \<le> 60000)" by simp
  have c: "fst (validateRequestRate (snd (admit_all Map.empty ?reqs)) ?k 60000) = Next"
    using validateRequestRate_admit[of Map.empty ?k 60000 ?reqs,
        THEN conjunct2, THEN conjunct2, THEN conjunct2, THEN conjunct2, THEN mp, OF h]
    unfolding st Let_def by (simp add: clientRequests_def)
  from a b c show ?thesis by simp
qed

text \<open>
  Claim C10.  Take any store the middleware has built from the empty one over requests
  whose clock readings do not go backwards, and a further call at \<open>now\<close>, not earlier
  than those.  If the call lets the request pass, the array then stored for its key has
  at most 10 entries, is in non-decreasing order, and holds only time stamps \<open>x\<close> with
  \<open>now - 60000 < x \<le> now\<close>.  A call that does not let the request pass returns the
  store it was given, whatever that store is: the pruned array is not written back.
\<close>

theorem rateLimitStore_invariant:
  fixes reqs :: "('k \<times> int) list"
  assumes "sorted (map snd reqs)" and "\<forall>r \<in> set reqs. snd r \<le> now"
  shows "(fst (validateRequestRate (snd (admit_all Map.empty reqs)) k now) = Next \<longrightarrow>
           (let ts = clientRequests (snd (validateRequestRate (snd (admit_all Map.empty reqs)) k now)) k
            in length ts \<le> 10 \<and> sorted ts \<and> (\<forall>x \<in> set ts. now - 60000 < x \<and> x \<le> now)))
       \<and> (fst (validateRequestRate s k now) \<noteq> Next \<longrightarrow> snd (validateRequestRate s k now) = s)"
proof -
  define store :: "'k rateLimitStore" where "store = snd (admit_all Map.empty reqs)"
  have inv: "storeInv store now" unfolding store_def using assms by (intro history_inv) auto
  have inv': "storeInv (snd (validateRequestRate store k now)) now"
    using inv by (rule storeInv_step) simp
  have "length ts \<le> 10 \<and> sorted ts \<and> (\<forall>x \<in> set ts. now - 60000 < x \<and> x \<le> now)"
    if n: "fst (validateRequestRate store k now) = Next"
      and ts: "ts = clientRequests (snd (validateRequestRate store k now)) k" for ts
  proof -
    have lt: "length (validRequests store k now) < maxRequests"
      using n by (auto simp: validateRequestRate_def Let_def split: if_splits)
    have eq: "ts = validRequests store k now @ [now]"
      by (simp add: ts allow_eq[OF lt] clientRequests_upd)
    have "\<forall>x \<in> set ts. now - 60000 < x"
      using validRequests_window[of _ store k now] by (auto simp: eq windowMs_def)
    then show ?thesis
      using inv' unfolding storeInv_def ts maxRequests_def by blast
  qed
  moreover have "fst (validateRequestRate s k now) \<noteq> Next \<longrightarrow> snd (validateRequestRate s k now) = s"
    by (simp add: validateRequestRate_def Let_def)
  ultimately show ?thesis unfolding store_def Let_def by blast
qed

theorem rateLimitStore_invariant_witness:
  "clientRequests (snd (validateRequestRate
       (snd (admit_all Map.empty [(''10.0.0.1'', 0), (''10.0.0.2'', 500), (''10.0.0.1'', 61000)]))
       ''10.0.0.1'' 62000)) ''10.0.0.1'' = [61000, 62000]
   \<and> sorted [61000, 62000 :: int]"
proof -
  let ?reqs = "[(''10.0.0.1'', 0), (''10.0.0.2'', 500), (''10.0.0.1'', 61000)] :: (string \<times> int) list"
  have h1: "sorted (map snd ?reqs)" by simp
  have h2: "\<forall>r \<in> set ?reqs. snd r \<le> 62000" by simp
  have ev: "clientRequests (snd (validateRequestRate (snd (admit_all Map.empty ?reqs))
       ''10.0.0.1'' 62000)) ''10.0.0.1'' = [61000, 62000]"
    by (simp add: validateRequestRate_def validRequests_def clientRequests_def windowMs_def
        maxRequests_def)
  have nx: "fst (validateRequestRate (snd (admit_all Map.empty ?reqs)) ''10.0.0.1'' 62000) = Next"
    by (simp add: validateRequestRate_def validRequests_def clientRequests_def windowMs_def
        maxRequests_def)
  show ?thesis
    using rateLimitStore_invariant[OF h1 h2, of "''10.0.0.1''" Map.empty] nx ev
    by (simp add: Let_def)
qed

section \<open>Properties of prompt validation\<close>

lemma of_char_lt_256: "(of_char (c :: char) :: nat) < 256"
  using of_char_mod_256 [of c, where ?'a = nat] by (metis mod_less_divisor zero_less_numeral)

lemma char_of_eq_small: "n < 256 \<Longrightarrow> (char_of (n :: nat) = d) = (n = of_char d)"
  by (auto simp add: char_of_eq_iff take_bit_eq_mod)

lemma toLowerCaseChar_sameLetter:
  assumes "97 \<le> (of_char d :: nat)" and "(of_char d :: nat) \<le> 122"
  shows "(toLowerCaseChar c = d) = sameLetter c d"
proof -
  define n :: nat where "n = of_char c"
  define m :: nat where "m = of_char d"
  have e: "(c = d) = (n = m)" by (simp add: n_def m_def)
  have m: "97 \<le> m" "m \<le> 122" using assms by (simp_all add: m_def)
  have n: "n < 256" unfolding n_def by (rule of_char_lt_256)
  consider (up) "65 \<le> n \<and> n \<le> 90" | (acc) "192 \<le> n \<and> n \<le> 222 \<and> n \<noteq> 215"
    | (other) "\<not> (65 \<le> n \<and> n \<le> 90) \<and> \<not> (192 \<le> n \<and> n \<le> 222 \<and> n \<noteq> 215)"
    by blast
  then show ?thesis
  proof cases
    case up
    then have "toLowerCaseChar c = char_of (n + 32)"
      by (simp add: toLowerCaseChar_def n_def)
    moreover have "(char_of (n + 32) = d) = (n + 32 = m)"
      using up by (simp add: char_of_eq_small m_def)
    moreover have "sameLetter c d = (m = n + 32)"
      using up m unfolding sameLetter_def asciiCapital_def e n_def[symmetric] m_def[symmetric]
      by linarith
    ultimately show ?thesis by auto
  next
    case acc
    then have "toLowerCaseChar c = char_of (n + 32)"
      by (simp add: toLowerCaseChar_def n_def)
    moreover have "(char_of (n + 32) = d) = (n + 32 = m)"
      using acc by (simp add: char_of_eq_small m_def)
    moreover have "\<not> sameLetter c d"
      using acc m unfolding sameLetter_def asciiCapital_def e n_def[symmetric] m_def[symmetric]
      by linarith
    ultimately show ?thesis using acc m by auto
  next
    case other
    then have "toLowerCaseChar c = c"
      unfolding toLowerCaseChar_def Let_def n_def by auto
    moreover have "sameLetter c d = (n = m)"
      using other m unfolding sameLetter_def asciiCapital_def e n_def[symmetric] m_def[symmetric]
      by linarith
    ultimately show ?thesis using e by simp
  qed
qed


lemma matchesAt_prefix:
  "\<forall>d \<in> set t. 97 \<le> (of_char d :: nat) \<and> (of_char d :: nat) \<le> 122 \<Longrightarrow>
   matchesAt t s = prefix t (toLowerCase s)"
proof (induction t s rule: matchesAt.induct)
  case (1 s)
  then show ?case by simp
next
  case (2 t ts)
  then show ?case by (simp add: toLowerCase_def)
next
  case (3 t ts c cs)
  then show ?case
    using toLowerCaseChar_sameLetter[of t c] by (auto simp: toLowerCase_def)
qed

lemma occurs_sublist:
  "\<forall>d \<in> set t. 97 \<le> (of_char d :: nat) \<and> (of_char d :: nat) \<le> 122 \<Longrightarrow>
   occursIgnoringCase t s = sublist t (toLowerCase s)"
proof (induction s)
  case Nil
  then show ?case by (simp add: matchesAt_prefix toLowerCase_def)
next
  case (Cons c cs)
  have "sublist t (toLowerCase (c # cs)) =
          (prefix t (toLowerCase (c # cs)) \<or> sublist t (toLowerCase cs))"
    by (simp add: toLowerCase_def sublist_Cons_right)
  with Cons show ?case by (simp add: matchesAt_prefix)
qed

lemma prohibitedTerms_lower:
  "t \<in> set prohibitedTerms \<Longrightarrow> \<forall>d \<in> set t. 97 \<le> (of_char d :: nat) \<and> (of_char d :: nat) \<le> 122"
  unfolding prohibitedTerms_def by auto

lemma code_contains:
  "list_ex (\<lambda>term. includes_js (toLowerCase s) term) prohibitedTerms = containsProhibited s"
  unfolding containsProhibited_def includes_js_def list_ex_iff
  using occurs_sublist[OF prohibitedTerms_lower] by blast


lemma trim_decomp: "\<exists>a b. s = a @ trim s @ b"
proof -
  let ?d = "dropWhile isWhiteSpace s"
  let ?r = "rev ?d"
  have "rev (dropWhile isWhiteSpace ?r) @ rev (takeWhile isWhiteSpace ?r) =
          rev (takeWhile isWhiteSpace ?r @ dropWhile isWhiteSpace ?r)"
    by (rule rev_append[symmetric])
  also have "\<dots> = rev ?r" by (simp only: takeWhile_dropWhile_id)
  also have "\<dots> = ?d" by (rule rev_rev_ident)
  finally have "?d = trim s @ rev (takeWhile isWhiteSpace ?r)" by (simp only: trim_def)
  moreover have "s = takeWhile isWhiteSpace s @ ?d" by simp
  ultimately have "s = takeWhile isWhiteSpace s @ trim s @ rev (takeWhile isWhiteSpace ?r)"
    by simp
  then show ?thesis by blast
qed

lemma trim_sublist: "sublist (trim s) s"
  using trim_decomp[of s] unfolding sublist_def by metis

lemma dropWhile_keeps:
  assumes "u \<noteq> []" and "\<forall>c \<in> set u. \<not> P c"
  shows "\<exists>a. dropWhile P (ps @ u @ ss) = a @ u @ ss"
proof (cases "\<forall>x \<in> set ps. P x")
  case True
  then have "dropWhile P (ps @ u @ ss) = dropWhile P (u @ ss)" by simp
  also have "\<dots> = u @ ss" using assms by (cases u) auto
  finally show ?thesis by (intro exI[of _ "[]"]) simp
next
  case False
  then obtain x where "x \<in> set ps" "\<not> P x" by blast
  then have "dropWhile P (ps @ u @ ss) = dropWhile P ps @ u @ ss"
    by (rule dropWhile_append1)
  then show ?thesis by blast
qed

lemma sublist_trim:
  assumes "sublist u s" and "u \<noteq> []" and "\<forall>c \<in> set u. \<not> isWhiteSpace c"
  shows "sublist u (trim s)"
proof -
  from assms(1) obtain ps ss where s: "s = ps @ u @ ss" unfolding sublist_def by blast
  from dropWhile_keeps[OF assms(2,3), of ps ss] obtain a
    where d: "dropWhile isWhiteSpace s = a @ u @ ss" unfolding s by blast
  have ru: "rev u \<noteq> []" "\<forall>c \<in> set (rev u). \<not> isWhiteSpace c" using assms(2,3) by simp_all
  from dropWhile_keeps[OF ru, of "rev ss" "rev a"] obtain b
    where "dropWhile isWhiteSpace (rev ss @ rev u @ rev a) = b @ rev u @ rev a" by blast
  then have "trim s = a @ u @ rev b" by (simp add: trim_def d)
  then show ?thesis unfolding sublist_def by blast
qed

lemma isWhiteSpace_toLowerCaseChar: "isWhiteSpace (toLowerCaseChar c) = isWhiteSpace c"
proof -
  define n :: nat where "n = of_char c"
  have n: "n < 256" unfolding n_def by (rule of_char_lt_256)
  show ?thesis
  proof (cases "(65 \<le> n \<and> n \<le> 90) \<or> (192 \<le> n \<and> n \<le> 222 \<and> n \<noteq> 215)")
    case True
    then have "toLowerCaseChar c = char_of (n + 32)"
      unfolding toLowerCaseChar_def Let_def n_def by auto
    moreover have "(of_char (char_of (n + 32) :: char) :: nat) = n + 32"
      using True by (auto simp add: take_bit_eq_mod)
    ultimately show ?thesis using True
      unfolding isWhiteSpace_def n_def[symmetric] by auto
  next
    case False
    then have "toLowerCaseChar c = c"
      unfolding toLowerCaseChar_def Let_def n_def by auto
    then show ?thesis by simp
  qed
qed

lemma trim_toLowerCase: "trim (toLowerCase s) = toLowerCase (trim s)"
proof -
  have comp: "isWhiteSpace \<circ> toLowerCaseChar = isWhiteSpace"
    by (auto simp: isWhiteSpace_toLowerCaseChar)
  show ?thesis
    unfolding trim_def toLowerCase_def
    by (simp add: dropWhile_map rev_map comp)
qed

lemma lower_not_space:
  "97 \<le> (of_char d :: nat) \<and> (of_char d :: nat) \<le> 122 \<Longrightarrow> \<not> isWhiteSpace d"
  by (auto simp: isWhiteSpace_def)

lemma containsProhibited_sublist:
  "containsProhibited s = (\<exists>t \<in> set prohibitedTerms. sublist t (toLowerCase s))"
  unfolding containsProhibited_def list_ex_iff
  using occurs_sublist[OF prohibitedTerms_lower] by blast

lemma prohibitedTerms_nonempty: "t \<in> set prohibitedTerms \<Longrightarrow> 4 \<le> length t"
  unfolding prohibitedTerms_def by auto

lemma containsProhibited_trim: "containsProhibited (trim s) = containsProhibited s"
proof -
  have "sublist t (toLowerCase (trim s)) = sublist t (toLowerCase s)"
    if t: "t \<in> set prohibitedTerms" for t
  proof
    assume "sublist t (toLowerCase (trim s))"
    then have "sublist t (trim (toLowerCase s))" by (simp add: trim_toLowerCase)
    then show "sublist t (toLowerCase s)"
      using trim_sublist sublist_order.order_trans by blast
  next
    assume a: "sublist t (toLowerCase s)"
    have "t \<noteq> []" using prohibitedTerms_nonempty[OF t] by auto
    moreover have "\<forall>c \<in> set t. \<not> isWhiteSpace c"
      using prohibitedTerms_lower[OF t] lower_not_space by blast
    ultimately have "sublist t (trim (toLowerCase s))" using a by (intro sublist_trim)
    then show "sublist t (toLowerCase (trim s))" by (simp add: trim_toLowerCase)
  qed
  then show ?thesis unfolding containsProhibited_sublist by blast
qed

lemma containsProhibited_length: "containsProhibited s \<Longrightarrow> 4 \<le> length s"
proof -
  assume "containsProhibited s"
  then obtain t where t: "t \<in> set prohibitedTerms" "sublist t (toLowerCase s)"
    unfolding containsProhibited_sublist by blast
  then have "length t \<le> length (toLowerCase s)" by (auto simp: sublist_def)
  with prohibitedTerms_nonempty[OF t(1)] show ?thesis by (simp add: toLowerCase_def)
qed

lemma isValidPrompt_iff:
  "isValidPrompt s =
     (s \<noteq> [] \<and> 3 \<le> length (trim s) \<and> length (trim s) \<le> 2000 \<and> \<not> containsProhibited s)"
  unfolding isValidPrompt_def Let_def code_contains containsProhibited_trim by auto

lemma trim_id:
  assumes "s \<noteq> []" and "\<not> isWhiteSpace (hd s)" and "\<not> isWhiteSpace (last s)"
  shows "trim s = s"
proof -
  have "dropWhile isWhiteSpace s = s" using assms(1,2) by (cases s) auto
  moreover have "dropWhile isWhiteSpace (rev s) = rev s"
    using assms(1,3) by (cases "rev s") (auto simp: last_rev[symmetric] hd_rev)
  ultimately show ?thesis by (simp add: trim_def)
qed

lemma validatePrompt_short:
  assumes "s \<noteq> []" and "length (trim s) < 3"
  shows "validatePrompt (Some (JStr s)) =
           Reply (invalidPromptReply ''Prompt must be at least 3 characters long'' (length (trim s)))"
  using assms by (simp add: validatePrompt_def isValidPrompt_iff Let_def)

lemma validatePrompt_long:
  assumes "2000 < length (trim s)"
  shows "validatePrompt (Some (JStr s)) =
           Reply (invalidPromptReply ''Prompt must not exceed 2000 characters'' (length (trim s)))"
proof -
  have "s \<noteq> []" using assms by (auto simp: trim_def)
  then show ?thesis using assms by (simp add: validatePrompt_def isValidPrompt_iff Let_def)
qed

lemma validatePrompt_prohibited:
  assumes "containsProhibited s" and "length (trim s) \<le> 2000"
  shows "validatePrompt (Some (JStr s)) =
           Reply (invalidPromptReply ''Prompt contains prohibited content or invalid characters''
                    (length (trim s)))"
proof -
  have "4 \<le> length (trim s)"
    using assms(1) containsProhibited_length[of "trim s"] by (simp add: containsProhibited_trim)
  moreover then have "s \<noteq> []" by (auto simp: trim_def)
  ultimately show ?thesis
    using assms by (simp add: validatePrompt_def isValidPrompt_iff Let_def)
qed

lemma padded_gore:
  "containsProhibited (replicate n CHR ''a'' @ ''gore'')"
  "trim (replicate n CHR ''a'' @ ''gore'') = replicate n CHR ''a'' @ ''gore''"
proof -
  have g: "toLowerCase ''gore'' = ''gore''" by code_simp
  have "sublist ''gore'' (toLowerCase (replicate n CHR ''a'') @ ''gore'')"
    unfolding sublist_def by (intro exI[of _ "toLowerCase (replicate n CHR ''a'')"] exI[of _ "[]"]) simp
  then have "sublist ''gore'' (toLowerCase (replicate n CHR ''a'' @ ''gore''))"
    using g by (simp add: toLowerCase_def)
  then show "containsProhibited (replicate n CHR ''a'' @ ''gore'')"
    unfolding containsProhibited_sublist prohibitedTerms_def by simp
  have a: "\<not> isWhiteSpace CHR ''a''" "\<not> isWhiteSpace CHR ''g''" "\<not> isWhiteSpace CHR ''e''"
    by (simp_all add: isWhiteSpace_def)
  have "hd (replicate n CHR ''a'' @ ''gore'') = (if n = 0 then CHR ''g'' else CHR ''a'')"
    by (cases n) simp_all
  then show "trim (replicate n CHR ''a'' @ ''gore'') = replicate n CHR ''a'' @ ''gore''"
    using a by (intro trim_id) auto
qed

text \<open>
  Claim C6.  For every input string whose trimmed form has between 3 and 2000 code units
  and contains no case-insensitive occurrence of "nsfw", "explicit", "gore" or
  "violence", \<^verbatim>\<open>validatePrompt\<close> accepts, and the prompt it hands on (the one
  the POST handler then works with) is the trimmed form of the input.
\<close>

theorem validatePrompt_accepts:
  assumes "3 \<le> length (trim s)" and "length (trim s) \<le> 2000"
    and "\<not> containsProhibited (trim s)"
  shows "validatePrompt (Some (JStr s)) = Pass (trim s)
       \<and> postGenerate w (Some (JStr s)) = postHandler w (trim s)"
proof -
  have ne: "s \<noteq> []" using assms(1) by (auto simp: trim_def)
  have "isValidPrompt s"
    using assms ne by (simp add: isValidPrompt_iff containsProhibited_trim)
  then have "validatePrompt (Some (JStr s)) = Pass (trim s)"
    using ne by (simp add: validatePrompt_def)
  then show ?thesis by (simp add: postGenerate_def)
qed

theorem validatePrompt_accepts_witness:
  "validatePrompt (Some (JStr ''  A cat '')) = Pass ''A cat''"
proof -
  have t: "trim ''  A cat '' = ''A cat''" by code_simp
  have h3: "\<not> containsProhibited ''A cat''" by code_simp
  show ?thesis
    using validatePrompt_accepts[of "''  A cat ''"] h3 by (simp add: t)
qed

text \<open>
  Claim C7 as stated, for a prompt of any length, fails.  The length tests come before
  the content test: a string of 2001 code units that ends
  in "gore" is rejected as too long, not for its content.
\<close>

theorem validatePrompt_prohibited_counterexample:
  "containsProhibited (replicate 1997 CHR ''a'' @ ''gore'')
   \<and> validatePrompt (Some (JStr (replicate 1997 CHR ''a'' @ ''gore''))) =
       Reply (invalidPromptReply ''Prompt must not exceed 2000 characters'' 2001)
   \<and> validatePrompt (Some (JStr (replicate 1997 CHR ''a'' @ ''gore''))) \<noteq>
       Reply (invalidPromptReply ''Prompt contains prohibited content or invalid characters'' 2001)"
proof -
  define s where "s = replicate 1997 CHR ''a'' @ ''gore''"
  have c: "containsProhibited s" unfolding s_def by (rule padded_gore(1))
  have t: "trim s = s" unfolding s_def by (rule padded_gore(2))
  have l: "length s = 2001" unfolding s_def by (simp only: length_append length_replicate) simp
  have v: "validatePrompt (Some (JStr s)) =
       Reply (invalidPromptReply ''Prompt must not exceed 2000 characters'' 2001)"
    using validatePrompt_long[of s] by (simp add: t l)
  have d: "invalidPromptReply ''Prompt must not exceed 2000 characters'' 2001 \<noteq>
        invalidPromptReply ''Prompt contains prohibited content or invalid characters'' 2001"
    by (simp add: invalidPromptReply_def)
  have "containsProhibited s
   \<and> validatePrompt (Some (JStr s)) =
       Reply (invalidPromptReply ''Prompt must not exceed 2000 characters'' 2001)
   \<and> validatePrompt (Some (JStr s)) \<noteq>
       Reply (invalidPromptReply ''Prompt contains prohibited content or invalid characters'' 2001)"
    using c v d by simp
  then show ?thesis unfolding s_def .
qed

text \<open>
  Claim C7, as amended.  For every input string that contains a case-insensitive
  occurrence of "nsfw", "explicit", "gore" or "violence" and whose trimmed form has at
  most 2000 code units, \<^verbatim>\<open>validatePrompt\<close> rejects with status 400 and the
  prohibited-content message, whatever surrounds the occurrence.  When the trimmed form
  is longer than 2000 code units the length test comes first and the rejection carries the
  too-long message instead.
\<close>

theorem validatePrompt_rejects_prohibited:
  "(containsProhibited s \<and> length (trim s) \<le> 2000 \<longrightarrow>
      validatePrompt (Some (JStr s)) =
        Reply (invalidPromptReply ''Prompt contains prohibited content or invalid characters''
                 (length (trim s))))
   \<and> (containsProhibited s \<and> 2000 < length (trim s) \<longrightarrow>
      validatePrompt (Some (JStr s)) =
        Reply (invalidPromptReply ''Prompt must not exceed 2000 characters'' (length (trim s))))"
  using validatePrompt_prohibited[of s] validatePrompt_long[of s] by blast

theorem validatePrompt_rejects_prohibited_witness:
  "validatePrompt (Some (JStr '' some GoRe, please '')) =
     Reply (invalidPromptReply ''Prompt contains prohibited content or invalid characters'' 17)
   \<and> validatePrompt (Some (JStr (replicate 1997 CHR ''a'' @ ''gore''))) =
       Reply (invalidPromptReply ''Prompt must not exceed 2000 characters'' 2001)"
proof -
  define s where "s = replicate 1997 CHR ''a'' @ ''gore''"
  have c: "containsProhibited s" unfolding s_def by (rule padded_gore(1))
  have t: "trim s = s" unfolding s_def by (rule padded_gore(2))
  have l: "length s = 2001" unfolding s_def by (simp only: length_append length_replicate) simp
  have b: "validatePrompt (Some (JStr s)) =
       Reply (invalidPromptReply ''Prompt must not exceed 2000 characters'' 2001)"
    using validatePrompt_rejects_prohibited[of s] c by (simp add: t l)
  have c': "containsProhibited '' some GoRe, please ''" by code_simp
  have t': "length (trim '' some GoRe, please '') = 17" by code_simp
  have a: "validatePrompt (Some (JStr '' some GoRe, please '')) =
     Reply (invalidPromptReply ''Prompt contains prohibited content or invalid characters'' 17)"
    using validatePrompt_rejects_prohibited[of "'' some GoRe, please ''", unfolded t'] c' by simp
  from a b show ?thesis unfolding s_def by simp
qed

text \<open>
  Claim C8 as stated, for every string with a short trimmed form, fails at the empty
  string.  The empty string is falsy, so the first test of \<^verbatim>\<open>validatePrompt\<close> answers
  it as a missing field before any length is looked at.
\<close>

theorem validatePrompt_length_counterexample:
  "length (trim []) < 3
   \<and> validatePrompt (Some (JStr [])) = Reply missingPromptReply
   \<and> validatePrompt (Some (JStr [])) \<noteq>
       Reply (invalidPromptReply ''Prompt must be at least 3 characters long'' 0)"
  by (simp add: trim_def validatePrompt_def missingPromptReply_def invalidPromptReply_def)

text \<open>
  Claim C8, as amended.  For every non-empty input string whose trimmed form has fewer
  than 3 code units, \<^verbatim>\<open>validatePrompt\<close> rejects with status 400 and the
  too-short message; for every input string whose trimmed form has more than 2000 code
  units it rejects with status 400 and the too-long message.  The empty string is
  rejected as a missing field.
\<close>

theorem validatePrompt_rejects_length:
  "(s \<noteq> [] \<and> length (trim s) < 3 \<longrightarrow>
      validatePrompt (Some (JStr s)) =
        Reply (invalidPromptReply ''Prompt must be at least 3 characters long'' (length (trim s))))
   \<and> (2000 < length (trim s) \<longrightarrow>
      validatePrompt (Some (JStr s)) =
        Reply (invalidPromptReply ''Prompt must not exceed 2000 characters'' (length (trim s))))
   \<and> validatePrompt (Some (JStr [])) = Reply missingPromptReply"
proof -
  have "validatePrompt (Some (JStr [])) = Reply missingPromptReply"
    by (simp add: validatePrompt_def)
  then show ?thesis
    using validatePrompt_short[of s] validatePrompt_long[of s] by blast
qed

theorem validatePrompt_rejects_length_witness:
  "validatePrompt (Some (JStr '' ab '')) =
     Reply (invalidPromptReply ''Prompt must be at least 3 characters long'' 2)
   \<and> validatePrompt (Some (JStr (replicate 1997 CHR ''a'' @ ''gore''))) =
       Reply (invalidPromptReply ''Prompt must not exceed 2000 characters'' 2001)"
proof -
  define s where "s = replicate 1997 CHR ''a'' @ ''gore''"
  have t: "trim s = s" unfolding s_def by (rule padded_gore(2))
  have l: "length s = 2001" unfolding s_def by (simp only: length_append length_replicate) simp
  have b: "validatePrompt (Some (JStr s)) =
       Reply (invalidPromptReply ''Prompt must not exceed 2000 characters'' 2001)"
    using validatePrompt_rejects_length[of s] by (simp add: t l)
  have t': "length (trim '' ab '') = 2" by code_simp
  have a: "validatePrompt (Some (JStr '' ab '')) =
     Reply (invalidPromptReply ''Prompt must be at least 3 characters long'' 2)"
    using validatePrompt_rejects_length[of "'' ab ''", unfolded t'] by simp
  from a b show ?thesis unfolding s_def by simp
qed

section \<open>The base64 text decodes to the bytes it encodes\<close>

lemma base64_length: "length (base64 bs) = 4 * ((length bs + 2) div 3)"
proof (induction bs rule: base64.induct)
  case (4 a b c rest)
  have "(length (a # b # c # rest) + 2) div 3 = Suc ((length rest + 2) div 3)" by simp
  with 4 show ?case by simp
qed simp_all

lemma sextetValue_table:
  "list_all (\<lambda>i. sextetValue (sextet i) = Some i) [0 ..< 64]"
  by code_simp

lemma sextetValue_sextet: "i < 64 \<Longrightarrow> sextetValue (sextet i) = Some i"
  using sextetValue_table by (simp add: list_all_iff)

lemma sextetValue_pad: "sextetValue CHR ''='' = None"
  by code_simp

lemma unat8: "unat (a :: 8 word) < 256"
  using unsigned_less[of a, where ?'a = nat] by simp

lemma split_a: "(n::nat) div 4 * 4 + (n mod 4 * 16 + m div 16) div 16 = n" if "m < 256"
proof -
  have "m div 16 < 16" using that by simp
  then have "(n mod 4 * 16 + m div 16) div 16 = n mod 4" by simp
  then show ?thesis by simp
qed

lemma split_b: "((n::nat) mod 4 * 16 + m div 16) mod 16 * 16 + (m mod 16 * 4 + k div 64) div 4 = m"
  if "m < 256" "k < 256"
proof -
  have "m div 16 < 16" using that by simp
  then have 1: "(n mod 4 * 16 + m div 16) mod 16 = m div 16" by simp
  have "k div 64 < 4" using that by simp
  then have 2: "(m mod 16 * 4 + k div 64) div 4 = m mod 16" by simp
  show ?thesis unfolding 1 2 by simp
qed

lemma split_c: "((m::nat) mod 16 * 4 + k div 64) mod 4 * 64 + k mod 64 = k" if "k < 256"
proof -
  have "k div 64 < 4" using that by simp
  then have "(m mod 16 * 4 + k div 64) mod 4 = k div 64" by simp
  then show ?thesis by simp
qed


lemma fromBase64_base64: "fromBase64 (base64 bs) = bs"
proof (induction bs rule: base64.induct)
  case 1
  then show ?case by simp
next
  case (2 a)
  have "unat a div 4 < 64" "unat a mod 4 * 16 < 64" using unat8[of a] by auto
  moreover have "unat a div 4 * 4 + unat a mod 4 * 16 div 16 = unat a" by simp
  ultimately show ?case by (simp add: sextetValue_sextet sextetValue_pad)
next
  case (3 a b)
  have "unat a div 4 < 64" "unat a mod 4 * 16 + unat b div 16 < 64" "unat b mod 16 * 4 < 64"
    using unat8[of a] unat8[of b] by auto
  moreover have "unat b mod 16 * 4 div 4 = unat b mod 16" by simp
  ultimately show ?case
    using split_a[OF unat8[of b], of "unat a"] split_b[OF unat8[of b], of 0 "unat a"]
    by (simp add: sextetValue_sextet sextetValue_pad)
next
  case (4 a b c rest)
  have "unat a div 4 < 64" "unat a mod 4 * 16 + unat b div 16 < 64"
    "unat b mod 16 * 4 + unat c div 64 < 64" "unat c mod 64 < 64"
    using unat8[of a] unat8[of b] unat8[of c] by auto
  then show ?case
    using 4 split_a[OF unat8[of b], of "unat a"] split_b[OF unat8[of b] unat8[of c], of "unat a"]
      split_c[OF unat8[of c], of "unat b"]
    by (simp add: sextetValue_sextet)
qed

section \<open>Properties of the upstream client and the handlers\<close>

lemma validateCredentials_ok:
  "CLOUDFLARE_ACCOUNT_ID w = Some a \<Longrightarrow> a \<noteq> [] \<Longrightarrow> CLOUDFLARE_API_TOKEN w = Some t \<Longrightarrow> t \<noteq> [] \<Longrightarrow>
   validateCredentials w = Inr (a, t)"
  by (simp add: validateCredentials_def)

lemma generateImage_sent:
  assumes "CLOUDFLARE_ACCOUNT_ID w = Some a" "a \<noteq> []" "CLOUDFLARE_API_TOKEN w = Some t" "t \<noteq> []"
  shows "generateImage w p =
     (case fetch w (sentRequest w a t (trim p)) of
        Inl m \<Rightarrow> Inl (Error (''Image generation failed: '' @ m))
      | Inr r \<Rightarrow>
          (case processCloudflareResponse w r of
             Inl e \<Rightarrow> Inl (caught e)
           | Inr base64Image \<Rightarrow> Inr base64Image),
      [sentRequest w a t (trim p)])"
  using assms by (simp add: generateImage_def validateCredentials_ok Let_def split: sum.splits)

lemma generateImage_unauthenticated:
  "CLOUDFLARE_ACCOUNT_ID w = None \<or> CLOUDFLARE_ACCOUNT_ID w = Some [] \<Longrightarrow>
     generateImage w p =
       (Inl (AuthenticationError ''CLOUDFLARE_ACCOUNT_ID environment variable is required''), [])"
  "CLOUDFLARE_ACCOUNT_ID w = Some a \<Longrightarrow> a \<noteq> [] \<Longrightarrow>
   CLOUDFLARE_API_TOKEN w = None \<or> CLOUDFLARE_API_TOKEN w = Some [] \<Longrightarrow>
     generateImage w p =
       (Inl (AuthenticationError ''CLOUDFLARE_API_TOKEN environment variable is required''), [])"
  by (auto simp add: generateImage_def validateCredentials_def)

lemma errorStatus_simps:
  "errorStatus (CloudflareAPIError m st) = (502, ''Failed to communicate with Cloudflare AI service'')"
  "errorStatus (AuthenticationError m) = (401, ''Invalid Cloudflare API credentials'')"
  "errorStatus (Error m) = (500, ''Failed to generate image due to an internal error'')"
  "errorStatus (TypeError m) = (500, ''Failed to generate image due to an internal error'')"
  "errorStatus (URIError m) = (500, ''Failed to generate image due to an internal error'')"
  by (simp_all add: errorStatus_def)

lemma handlers_on_error:
  assumes "generateImage w p = (Inl e, sent)"
  shows "statusCode (fst (postHandler w p)) = fst (errorStatus e)"
    and "snd (postHandler w p) = sent"
  using assms by (simp_all add: postHandler_def)

text \<open>
  Claim C4.  For every prompt, when the account identifier is unset or empty,
  \<^verbatim>\<open>generateImage\<close> fails with an \<^verbatim>\<open>AuthenticationError\<close> whose message
  is "CLOUDFLARE_ACCOUNT_ID environment variable is required"; when the account identifier
  is there and the API token is unset or empty, with the same error naming
  CLOUDFLARE_API_TOKEN.  In both cases nothing is sent over the network, and the POST
  handler answers with status 401, as it does for every authentication error.
\<close>

theorem missing_credentials:
  "(CLOUDFLARE_ACCOUNT_ID w = None \<or> CLOUDFLARE_ACCOUNT_ID w = Some [] \<longrightarrow>
       generateImage w p =
         (Inl (AuthenticationError ''CLOUDFLARE_ACCOUNT_ID environment variable is required''), [])
     \<and> statusCode (fst (postHandler w p)) = 401 \<and> snd (postHandler w p) = [])
   \<and> ((\<exists>a. CLOUDFLARE_ACCOUNT_ID w = Some a \<and> a \<noteq> [])
        \<and> (CLOUDFLARE_API_TOKEN w = None \<or> CLOUDFLARE_API_TOKEN w = Some []) \<longrightarrow>
       generateImage w p =
         (Inl (AuthenticationError ''CLOUDFLARE_API_TOKEN environment variable is required''), [])
     \<and> statusCode (fst (postHandler w p)) = 401 \<and> snd (postHandler w p) = [])
   \<and> (\<forall>m sent. generateImage w p = (Inl (AuthenticationError m), sent) \<longrightarrow>
         statusCode (fst (postHandler w p)) = 401)"
proof -
  have a: "generateImage w p = (Inl (AuthenticationError m), sent) \<Longrightarrow>
        statusCode (fst (postHandler w p)) = 401 \<and> snd (postHandler w p) = sent" for m sent
    using handlers_on_error[of w p "AuthenticationError m" sent] by (simp add: errorStatus_simps)
  show ?thesis
    using generateImage_unauthenticated(1)[of w p] generateImage_unauthenticated(2)[of w _ p]
      a by metis
qed

theorem missing_credentials_witness:
  "generateImage (mockWorld None None pngAnswer) ''a cat'' =
     (Inl (AuthenticationError ''CLOUDFLARE_ACCOUNT_ID environment variable is required''), [])
   \<and> statusCode (fst (postGenerate (mockWorld None None pngAnswer) (Some (JStr ''a cat'')))) = 401
   \<and> fst (generateImage (mockWorld (Some ''acct'') (Some []) pngAnswer) ''a cat'') =
       Inl (AuthenticationError ''CLOUDFLARE_API_TOKEN environment variable is required'')"
proof -
  have v: "validatePrompt (Some (JStr ''a cat'')) = Pass ''a cat''" by code_simp
  have p: "postGenerate w (Some (JStr ''a cat'')) = postHandler w ''a cat''" for w
    by (simp add: postGenerate_def v)
  show ?thesis
    using missing_credentials[of "mockWorld None None pngAnswer" "''a cat''"]
      missing_credentials[of "mockWorld (Some ''acct'') (Some []) pngAnswer" "''a cat''"]
    by (simp add: mockWorld_def p)
qed







text \<open>
  A first message that has no text: an object with a member named
  \<^verbatim>\<open>toString\<close>.  Building the \<^verbatim>\<open>CloudflareAPIError\<close> throws, outside
  the inner \<^verbatim>\<open>try\<close>, so \<^verbatim>\<open>generateImage\<close> wraps the
  \<^verbatim>\<open>TypeError\<close> in a plain \<^verbatim>\<open>Error\<close> and the POST handler answers
  500 where every other non-success answer of the upstream gives 502.
\<close>

lemma upstream_message_without_text:
  "fst (generateImage
     (mockWorld (Some ''acct'') (Some ''token'')
        (errorAnswer 500
           (JObj [(''errors'', JArr [JObj [(''message'', JObj [(''toString'', JNum 1)])]])])))
     ''a cat'') =
     Inl (Error ''Image generation failed: Cannot convert object to primitive value'')
   \<and> statusCode (fst (postHandler
     (mockWorld (Some ''acct'') (Some ''token'')
        (errorAnswer 500
           (JObj [(''errors'', JArr [JObj [(''message'', JObj [(''toString'', JNum 1)])]])])))
     ''a cat'')) = 500"
  by (simp add: postHandler_def generateImage_def validateCredentials_def mockWorld_def
      errorAnswer_def processCloudflareResponse_def ok_def errorMessageOf_def errorStatus_def
      Let_def)

lemma trim_ends:
  assumes "trim s \<noteq> []"
  shows "\<not> isWhiteSpace (hd (trim s))" and "\<not> isWhiteSpace (last (trim s))"
proof -
  define d where "d = dropWhile isWhiteSpace s"
  define e where "e = dropWhile isWhiteSpace (rev d)"
  have t: "trim s = rev e" by (simp add: trim_def d_def e_def)
  have e: "e \<noteq> []" using assms t by simp
  then have he: "\<not> isWhiteSpace (hd e)" unfolding e_def by (rule hd_dropWhile)
  have d: "d \<noteq> []" using e unfolding e_def by auto
  then have hd: "\<not> isWhiteSpace (hd d)" unfolding d_def by (rule hd_dropWhile)
  have "rev d = takeWhile isWhiteSpace (rev d) @ e" by (simp add: e_def)
  then have "last (rev d) = last e" using e by (metis last_appendR)
  then have "last e = hd d" using d by (simp add: last_rev)
  then show "\<not> isWhiteSpace (hd (trim s))" using hd e by (simp add: t hd_rev)
  show "\<not> isWhiteSpace (last (trim s))" using he e by (simp add: t last_rev)
qed

lemma trim_trim: "trim (trim s) = trim s"
proof (cases "trim s = []")
  case True
  have "trim [] = []" by (simp add: trim_def)
  then show ?thesis unfolding True .
next
  case False
  then show ?thesis using trim_ends[OF False] by (intro trim_id)
qed

lemma postHandler_success:
  assumes "CLOUDFLARE_ACCOUNT_ID w = Some a" "a \<noteq> []" "CLOUDFLARE_API_TOKEN w = Some t" "t \<noteq> []"
    and "fetch w (sentRequest w a t (trim q)) = Inr r"
    and "200 \<le> responseStatus r \<and> responseStatus r \<le> 299"
  shows "postHandler w q =
     (\<lparr>statusCode = 200,
       payload = JsonBody (JObj
         [(''success'', JBool True),
          (''image'', JStr (base64 (arrayBuffer r))),
          (''prompt'', JStr q),
          (''timestamp'', JStr (toISOString w (replyTime w))),
          (''processingTimeMs'', JNum (doneTime w - startTime w))])\<rparr>,
      [sentRequest w a t (trim q)])"
  using assms
  by (simp add: postHandler_def generateImage_sent processCloudflareResponse_def ok_def)

text \<open>
  Claim C5, as amended.  For every string that \<^verbatim>\<open>isValidPrompt\<close> accepts, with
  both credentials set and an upstream answer of status 200..299 with body bytes \<open>B\<close>,
  POST /generate answers 200 with the JSON envelope whose \<^verbatim>\<open>success\<close> is true,
  whose \<^verbatim>\<open>image\<close> is the base64 text of \<open>B\<close>, whose \<^verbatim>\<open>prompt\<close> is the
  trimmed form of the submitted prompt, whose \<^verbatim>\<open>timestamp\<close> is the ISO text of
  the reply's clock reading and whose \<^verbatim>\<open>processingTimeMs\<close> is the time elapsed
  since the handler started; one request went to the upstream.
\<close>

theorem post_success:
  assumes "isValidPrompt s"
    and "CLOUDFLARE_ACCOUNT_ID w = Some a" and "a \<noteq> []"
    and "CLOUDFLARE_API_TOKEN w = Some t" and "t \<noteq> []"
    and "fetch w (sentRequest w a t (trim s)) = Inr r"
    and "200 \<le> responseStatus r \<and> responseStatus r \<le> 299"
  shows "postGenerate w (Some (JStr s)) =
     (\<lparr>statusCode = 200,
       payload = JsonBody (JObj
         [(''success'', JBool True),
          (''image'', JStr (base64 (arrayBuffer r))),
          (''prompt'', JStr (trim s)),
          (''timestamp'', JStr (toISOString w (replyTime w))),
          (''processingTimeMs'', JNum (doneTime w - startTime w))])\<rparr>,
      [sentRequest w a t (trim s)])"
proof -
  have "s \<noteq> []" using assms(1) by (simp add: isValidPrompt_iff)
  then have "postGenerate w (Some (JStr s)) = postHandler w (trim s)"
    using assms(1) by (simp add: postGenerate_def validatePrompt_def)
  then show ?thesis
    using postHandler_success[of w a t "trim s" r] assms(2-7) by (simp add: trim_trim)
qed

theorem post_success_witness:
  "fst (postGenerate (mockWorld (Some ''acct'') (Some ''token'') pngAnswer) (Some (JStr ''a cat''))) =
     \<lparr>statusCode = 200,
      payload = JsonBody (JObj
        [(''success'', JBool True),
         (''image'', JStr ''iVBORw==''),
         (''prompt'', JStr ''a cat''),
         (''timestamp'', JStr ''1970-01-01T00:00:01.250Z''),
         (''processingTimeMs'', JNum 250)])\<rparr>"
proof -
  let ?w = "mockWorld (Some ''acct'') (Some ''token'') pngAnswer"
  let ?r = "\<lparr>responseStatus = 200, arrayBuffer = [0x89, 0x50, 0x4E, 0x47], responseJson = None\<rparr>"
  have v: "isValidPrompt ''a cat''" by code_simp
  have t: "trim ''a cat'' = ''a cat''" by code_simp
  show ?thesis
    using post_success[of "''a cat''" ?w "''acct''" "''token''" ?r] v
    by (simp add: mockWorld_def pngAnswer_def t sextet_def base64Alphabet_def)
qed

text \<open>
  Claim C5 as stated, with the submitted prompt echoed, fails for a prompt with blanks
  around it.  The middleware overwrites \<^verbatim>\<open>req.body.prompt\<close> with its trimmed form, so a
  prompt submitted with surrounding blanks is echoed without them.
\<close>

theorem post_prompt_counterexample:
  "isValidPrompt '' a cat ''
   \<and> fst (postGenerate (mockWorld (Some ''acct'') (Some ''token'') pngAnswer)
          (Some (JStr '' a cat ''))) =
     \<lparr>statusCode = 200,
      payload = JsonBody (JObj
        [(''success'', JBool True),
         (''image'', JStr ''iVBORw==''),
         (''prompt'', JStr ''a cat''),
         (''timestamp'', JStr ''1970-01-01T00:00:01.250Z''),
         (''processingTimeMs'', JNum 250)])\<rparr>
   \<and> ''a cat'' \<noteq> '' a cat ''"
proof -
  have v: "isValidPrompt '' a cat ''" by code_simp
  have t: "trim '' a cat '' = ''a cat''" by code_simp
  have t': "trim ''a cat'' = ''a cat''" by code_simp
  have "fst (postGenerate (mockWorld (Some ''acct'') (Some ''token'') pngAnswer)
          (Some (JStr '' a cat ''))) =
     \<lparr>statusCode = 200,
      payload = JsonBody (JObj
        [(''success'', JBool True),
         (''image'', JStr ''iVBORw==''),
         (''prompt'', JStr ''a cat''),
         (''timestamp'', JStr ''1970-01-01T00:00:01.250Z''),
         (''processingTimeMs'', JNum 250)])\<rparr>"
    using v
    by (simp add: postGenerate_def validatePrompt_def postHandler_def generateImage_def
        validateCredentials_def mockWorld_def pngAnswer_def processCloudflareResponse_def ok_def
        Let_def t t' sextet_def base64Alphabet_def)
  with v show ?thesis by simp
qed

lemma tokens_plain: "CHR ''%'' \<notin> set s \<Longrightarrow> tokens s = Some (map Lit s)"
  by (induction s rule: tokens.induct) auto

lemma utf8_plain: "utf8 (map Lit s) = Decoded s"
  by (induction s) auto

lemma decodeURIComponent_plain:
  "CHR ''%'' \<notin> set s \<Longrightarrow> decodeURIComponent s = Decoded s"
  by (simp add: decodeURIComponent_def tokens_plain utf8_plain)

lemma getGenerate_rejects:
  assumes "decodeURIComponent param = Decoded p"
    and "length (trim p) < 3 \<or> 2000 < length (trim p)"
  shows "getGenerate w param =
     Some (Replied \<lparr>statusCode = 400,
       payload = JsonBody (JObj
         [(''success'', JBool False),
          (''error'', JStr ''Invalid prompt''),
          (''message'', JStr ''Prompt must be between 3 and 2000 characters long''),
          (''example'', JStr ''GET /generate/a%20beautiful%20sunset'')])\<rparr>, [])"
  using assms by (auto simp add: getGenerate_def)

lemma getGenerate_calls:
  assumes "decodeURIComponent param = Decoded p"
    and "3 \<le> length (trim p)" and "length (trim p) \<le> 2000"
  shows "map_option snd (getGenerate w param) = Some (snd (generateImage w (trim p)))"
proof -
  have "p \<noteq> []" using assms(2) by (auto simp: trim_def)
  then show ?thesis
    using assms
    by (simp add: getGenerate_def case_prod_unfold Let_def split: sum.splits)
qed

text \<open>
  Where the handler's own decoding changes nothing (no \<open>%\<close> in the path segment
  handed over), the inline test of the GET route works on the prompt as requested: a
  prompt whose trimmed form has fewer than 3 or more than 2000 code units is answered 400
  with nothing sent to the upstream, and any other prompt goes on to
  \<^verbatim>\<open>generateImage\<close> trimmed, with no test of its content in between.
\<close>

lemma getGenerate_plain:
  assumes "CHR ''%'' \<notin> set p"
  shows "length (trim p) < 3 \<or> 2000 < length (trim p) \<Longrightarrow>
           \<exists>r. getGenerate w p = Some (Replied r, []) \<and> statusCode r = 400"
    and "3 \<le> length (trim p) \<Longrightarrow> length (trim p) \<le> 2000 \<Longrightarrow>
           map_option snd (getGenerate w p) = Some (snd (generateImage w (trim p)))"
  using getGenerate_rejects[OF decodeURIComponent_plain[OF assms], of w]
    getGenerate_calls[OF decodeURIComponent_plain[OF assms], of w]
  by auto

lemma escaped_A:
  "length (concat (replicate n ''%41'')) = 3 * n"
  "tokens (concat (replicate n ''%41'')) = Some (replicate n (Octet 65))"
  "utf8 (replicate n (Octet 65)) = Decoded (replicate n CHR ''A'')"
proof -
  show "length (concat (replicate n ''%41'')) = 3 * n" by (induction n) simp_all
  have h: "hexDigit CHR ''4'' = Some 4" "hexDigit CHR ''1'' = Some 1" by code_simp+
  show "tokens (concat (replicate n ''%41'')) = Some (replicate n (Octet 65))"
    by (induction n) (simp_all add: h)
  have c: "char_of (65 :: nat) = CHR ''A''" by code_simp
  show "utf8 (replicate n (Octet 65)) = Decoded (replicate n CHR ''A'')"
    by (induction n) (simp_all add: c)
qed

lemma escaped_A_trim:
  "0 < n \<Longrightarrow> trim (concat (replicate n ''%41'')) = concat (replicate n ''%41'')"
  "0 < n \<Longrightarrow> trim (replicate n CHR ''A'') = replicate n CHR ''A''"
proof -
  assume n: "0 < n"
  then obtain k where k: "n = Suc k" by (cases n) auto
  have w: "\<not> isWhiteSpace CHR ''%''" "\<not> isWhiteSpace CHR ''1''" "\<not> isWhiteSpace CHR ''A''"
    by (simp_all add: isWhiteSpace_def)
  have l: "last (concat (replicate n ''%41'')) = CHR ''1''"
    unfolding k by (induction k) simp_all
  show "trim (concat (replicate n ''%41'')) = concat (replicate n ''%41'')"
    using w l by (intro trim_id) (simp_all add: k)
  show "trim (replicate n CHR ''A'') = replicate n CHR ''A''"
    using w n by (intro trim_id) (simp_all add: k)
qed

text \<open>
  Claim C9, evaluated on the code.  The framework hands over the path segment already
  URL-decoded, and the handler decodes it once more before its \<^verbatim>\<open>try\<close>.  For
  the one-character prompt \<open>%\<close> (requested as \<^verbatim>\<open>GET /generate/%25\<close>) that
  second decoding throws \<^verbatim>\<open>URIError\<close>: the handler's promise rejects and the
  handler answers nothing, where the claim says 400.  For the prompt of 2100 characters
  made of 700 times \<open>%41\<close> it leaves 700 letters, which pass the length test: the
  upstream is called and the reply is the image with status 200, where the claim says 400
  before any upstream call.
\<close>

theorem getGenerate_decodes_again:
  \<open>length (trim ''%'') < 3
   \<and> getGenerate (mockWorld (Some ''acct'') (Some ''token'') pngAnswer) ''%'' =
       Some (Rejected (URIError ''URI malformed''), [])
   \<and> 2000 < length (trim (concat (replicate 700 ''%41'')))
   \<and> getGenerate (mockWorld (Some ''acct'') (Some ''token'') pngAnswer)
         (concat (replicate 700 ''%41'')) =
       Some (Replied \<lparr>statusCode = 200,
               payload = ImageBody
                 [(''Content-Type'', ''image/png''),
                  (''Content-Length'', ''4''),
                  (''X-Generated-Prompt'', replicate 700 CHR ''A''),
                  (''X-Processing-Time'', ''250'')]
                 [0x89, 0x50, 0x4E, 0x47]\<rparr>,
             [sentRequest (mockWorld (Some ''acct'') (Some ''token'') pngAnswer) ''acct'' ''token''
                (replicate 700 CHR ''A'')])\<close>
proof -
  let ?w = "mockWorld (Some ''acct'') (Some ''token'') pngAnswer"
  define n :: nat where "n = 700"
  have n: "0 < n" "3 \<le> n" "n \<le> 2000" "2000 < 3 * n" by (simp_all add: n_def)
  have 1: "length (trim ''%'') < 3" by code_simp
  have d1: "decodeURIComponent ''%'' = Malformed" by code_simp
  have 2: "getGenerate ?w ''%'' = Some (Rejected (URIError ''URI malformed''), [])"
    by (simp add: getGenerate_def d1 mockWorld_def)
  have 3: "2000 < length (trim (concat (replicate n ''%41'')))"
    using n by (simp add: escaped_A_trim escaped_A)
  have d2: "decodeURIComponent (concat (replicate n ''%41'')) = Decoded (replicate n CHR ''A'')"
    by (simp add: decodeURIComponent_def escaped_A)
  have v: "validHeaderValue (replicate n CHR ''A'')"
    by (simp add: validHeaderValue_def list_all_iff)
  define img where "img = base64 [0x89, 0x50, 0x4E, 0x47]"
  have b: "fromBase64 img = [0x89, 0x50, 0x4E, 0x47]"
    unfolding img_def by (rule fromBase64_base64)
  have dec: "decimal (Suc (Suc (Suc (Suc 0)))) = ''4''" "decimalInt 250 = ''250''"
    by code_simp+
  have g: "generateImage ?w (replicate n CHR ''A'') =
      (Inr img, [sentRequest ?w ''acct'' ''token'' (replicate n CHR ''A'')])"
    unfolding img_def using n
    by (simp add: generateImage_def validateCredentials_def mockWorld_def pngAnswer_def
        processCloudflareResponse_def ok_def Let_def escaped_A_trim)
  have ne: "replicate n CHR ''A'' \<noteq> []" using n by simp
  have 4: "getGenerate ?w (concat (replicate n ''%41'')) =
       Some (Replied \<lparr>statusCode = 200,
               payload = ImageBody
                 [(''Content-Type'', ''image/png''),
                  (''Content-Length'', ''4''),
                  (''X-Generated-Prompt'', replicate n CHR ''A''),
                  (''X-Processing-Time'', ''250'')]
                 [0x89, 0x50, 0x4E, 0x47]\<rparr>,
             [sentRequest ?w ''acct'' ''token'' (replicate n CHR ''A'')])"
    unfolding getGenerate_def d2
    using n ne by (simp add: escaped_A_trim g v b dec) (simp add: mockWorld_def dec)
  from 1 2 3 4 show ?thesis unfolding n_def by blast
qed

lemma servePosts_store: "snd (servePosts w store reqs) = store"
  by (induction reqs) (auto simp: case_prod_unfold)

lemma postGenerate_status:
  "statusCode (fst (postGenerate w b)) \<in> {200, 400, 401, 500, 502}"
proof (cases "validatePrompt b")
  case (Reply r)
  then have "statusCode r = 400"
    by (auto simp: validatePrompt_def missingPromptReply_def wrongTypeReply_def
        invalidPromptReply_def Let_def split: option.splits if_splits json.splits)
  with Reply show ?thesis by (simp add: postGenerate_def)
next
  case (Pass q)
  obtain res sent where g: "generateImage w q = (res, sent)" by (cases "generateImage w q")
  show ?thesis
  proof (cases res)
    case (Inl e)
    then show ?thesis using Pass g
      by (cases e) (simp_all add: postGenerate_def postHandler_def errorStatus_simps)
  next
    case (Inr i)
    then show ?thesis using Pass g by (simp add: postGenerate_def postHandler_def)
  qed
qed

text \<open>
  Claim C1, evaluated on the code.  Eleven POST requests with the prompt "a cat" from one
  address, one second apart, against a mocked upstream that answers 200: every one of
  them, the eleventh included, is answered 200 after one upstream call, because the POST
  route mounts \<^verbatim>\<open>validatePrompt\<close> only.  Run over the same arrivals,
  \<^verbatim>\<open>validateRequestRate\<close> itself lets ten pass and answers the eleventh with 429.
\<close>

theorem post_route_not_rate_limited:
  "map (\<lambda>(r, sent). (statusCode r, length sent))
     (fst (servePosts (mockWorld (Some ''acct'') (Some ''token'') pngAnswer) Map.empty
        (map (\<lambda>now. (''203.0.113.7'', now, Some (JStr ''a cat'')))
           [0, 1000, 2000, 3000, 4000, 5000, 6000, 7000, 8000, 9000, 10000]))) =
   [(200, 1), (200, 1), (200, 1), (200, 1), (200, 1), (200, 1), (200, 1), (200, 1), (200, 1),
    (200, 1), (200, 1)]
   \<and> fst (admit_all Map.empty
        (map (\<lambda>now. (''203.0.113.7'', now))
           [0, 1000, 2000, 3000, 4000, 5000, 6000, 7000, 8000, 9000, 10000])) =
     [Next, Next, Next, Next, Next, Next, Next, Next, Next, Next, RateLimitExceeded 50]"
proof -
  let ?w = "mockWorld (Some ''acct'') (Some ''token'') pngAnswer"
  have v: "validatePrompt (Some (JStr ''a cat'')) = Pass ''a cat''" by code_simp
  have t: "trim ''a cat'' = ''a cat''" by code_simp
  have p: "(\<lambda>(r, sent). (statusCode r, length sent)) (postGenerate ?w (Some (JStr ''a cat''))) = (200, 1)"
    by (simp add: postGenerate_def v postHandler_def generateImage_def validateCredentials_def
        mockWorld_def pngAnswer_def processCloudflareResponse_def ok_def Let_def)
  have s: "map (\<lambda>(r, sent). (statusCode r, length sent))
             (fst (servePosts ?w Map.empty (map (\<lambda>now. (''203.0.113.7'', now, Some (JStr ''a cat''))) ts))) =
           replicate (length ts) (200, 1)" for ts :: "int list"
    using p by (induction ts) (simp_all add: case_prod_unfold Let_def)
  have a: "fst (admit_all Map.empty
        (map (\<lambda>now. (''203.0.113.7'', now))
           [0, 1000, 2000, 3000, 4000, 5000, 6000, 7000, 8000, 9000, 10000])) =
     [Next, Next, Next, Next, Next, Next, Next, Next, Next, Next, RateLimitExceeded 50]"
    by (simp add: validateRequestRate_def validRequests_def clientRequests_def windowMs_def
        maxRequests_def ceil_div_def)
  show ?thesis using s[of "[0, 1000, 2000, 3000, 4000, 5000, 6000, 7000, 8000, 9000, 10000]"] a
    by simp
qed

end
